theory Spec2Isabelle
  imports Main "HOL-Library.Word"
begin

section \<open>Shared vocabulary\<close>

text \<open>
  A \<^verbatim>\<open>*tarantool.Connection\<close> is a pointer. The model keeps the connection objects in
  a store indexed by references; a pointer is an optional reference, \<open>None\<close> being
  Go's \<^verbatim>\<open>nil\<close>. Two pointers are equal exactly when they are the same reference, which
  is what Go's \<^verbatim>\<open>==\<close> and \<^verbatim>\<open>!=\<close> on pointers compare.
\<close>

type_synonym conn_ref = nat
type_synonym conn_ptr = "conn_ref option"

text \<open>
  The error values of the two packages. \<open>ErrNotBelong\<close> is the \<^verbatim>\<open>fmt.Errorf\<close> value
  with the text "the passed connected request doesn't belong to the current connection
  or connection pool", built at the same two places as in the source. \<open>ErrExternal\<close>
  stands for every error produced by a collaborator outside these files (the transport,
  the writer behind an encoder, a remote call).
\<close>

datatype error =
    ErrEmptyAddrs
  | ErrWrongCheckTimeout
  | ErrNoConnection
  | ErrNotBelong
  | ErrExternal string

text \<open>The spec's error categories, read off the error values.\<close>

definition is_ConfigError :: "error \<Rightarrow> bool" where
  "is_ConfigError e = (e = ErrEmptyAddrs \<or> e = ErrWrongCheckTimeout)"

definition is_NoActiveConnectionError :: "error \<Rightarrow> bool" where
  "is_NoActiveConnectionError e = (e = ErrNoConnection)"

definition is_BindingMismatchError :: "error \<Rightarrow> bool" where
  "is_BindingMismatchError e = (e = ErrNotBelong)"

text \<open>
  A request, as far as these files look at it: its request code, and whether it
  implements \<^verbatim>\<open>ConnectedRequest\<close>. \<open>req_conn r = Some c\<close> says that the type assertion
  \<^verbatim>\<open>req.(ConnectedRequest)\<close> succeeds and \<^verbatim>\<open>Conn()\<close> returns the pointer \<open>c\<close>.
\<close>

record request =
  req_code :: nat
  req_conn :: "conn_ptr option"

text \<open>
  What a \<^verbatim>\<open>Do\<close> hands back. The future either was completed locally with an error
  (\<^verbatim>\<open>NewFuture\<close> followed by \<^verbatim>\<open>SetError\<close>), or it is whatever the named connection's
  \<^verbatim>\<open>send(req, streamId)\<close> or \<^verbatim>\<open>Do(req)\<close> returns; only the last two reach a connection.
\<close>

datatype future =
    ErrorFuture error
  | SendOn conn_ptr request "64 word"
  | DoOn conn_ptr request

fun touches_connection :: "future \<Rightarrow> bool" where
  "touches_connection (ErrorFuture e) = False"
| "touches_connection (SendOn c r sid) = True"
| "touches_connection (DoOn c r) = True"

section \<open>Wire codec helpers (msgpack.go)\<close>

type_synonym byte = "8 word"

text \<open>
  The codes and range predicates of the imported package
  \<^verbatim>\<open>gopkg.in/vmihailenco/msgpack.v2/codes\<close>, with the values of the msgpack format.
\<close>

definition PosFixedNumHigh :: byte where "PosFixedNumHigh = 0x7f"
definition NegFixedNumLow :: byte where "NegFixedNumLow = 0xe0"
definition Uint8 :: byte where "Uint8 = 0xcc"
definition Uint16 :: byte where "Uint16 = 0xcd"
definition Uint32 :: byte where "Uint32 = 0xce"
definition Uint64 :: byte where "Uint64 = 0xcf"
definition FixedStrLow :: byte where "FixedStrLow = 0xa0"
definition FixedStrHigh :: byte where "FixedStrHigh = 0xbf"
definition Str8 :: byte where "Str8 = 0xd9"
definition Str16 :: byte where "Str16 = 0xda"
definition Str32 :: byte where "Str32 = 0xdb"
definition FixedArrayLow :: byte where "FixedArrayLow = 0x90"
definition FixedArrayHigh :: byte where "FixedArrayHigh = 0x9f"
definition Array16 :: byte where "Array16 = 0xdc"
definition Array32 :: byte where "Array32 = 0xdd"
definition FixedMapLow :: byte where "FixedMapLow = 0x80"
definition FixedMapHigh :: byte where "FixedMapHigh = 0x8f"
definition Map16 :: byte where "Map16 = 0xde"
definition Map32 :: byte where "Map32 = 0xdf"

definition IsFixedNum :: "byte \<Rightarrow> bool" where
  "IsFixedNum c = (c \<le> PosFixedNumHigh \<or> c \<ge> NegFixedNumLow)"

definition IsFixedMap :: "byte \<Rightarrow> bool" where
  "IsFixedMap c = (c \<ge> FixedMapLow \<and> c \<le> FixedMapHigh)"

definition IsFixedArray :: "byte \<Rightarrow> bool" where
  "IsFixedArray c = (c \<ge> FixedArrayLow \<and> c \<le> FixedArrayHigh)"

definition IsFixedString :: "byte \<Rightarrow> bool" where
  "IsFixedString c = (c \<ge> FixedStrLow \<and> c \<le> FixedStrHigh)"

text \<open>The four classifiers of msgpack.go.\<close>

definition msgpackIsUint :: "byte \<Rightarrow> bool" where
  "msgpackIsUint code =
     (code = Uint8 \<or> code = Uint16 \<or> code = Uint32 \<or> code = Uint64 \<or> IsFixedNum code)"

definition msgpackIsMap :: "byte \<Rightarrow> bool" where
  "msgpackIsMap code = (code = Map16 \<or> code = Map32 \<or> IsFixedMap code)"

definition msgpackIsArray :: "byte \<Rightarrow> bool" where
  "msgpackIsArray code = (code = Array16 \<or> code = Array32 \<or> IsFixedArray code)"

definition msgpackIsString :: "byte \<Rightarrow> bool" where
  "msgpackIsString code =
     (IsFixedString code \<or> code = Str8 \<or> code = Str16 \<or> code = Str32)"

text \<open>
  The msgpack format's own reading of a leading byte, for comparison: an unsigned
  integer starts with a positive fixint (\<open>0x00\<close> to \<open>0x7f\<close>) or one of the markers
  uint 8, uint 16, uint 32, uint 64 (\<open>0xcc\<close> to \<open>0xcf\<close>); a negative fixint is a byte
  from \<open>0xe0\<close> to \<open>0xff\<close> and encodes a number from -32 to -1.
\<close>

definition unsigned_leading_byte :: "byte \<Rightarrow> bool" where
  "unsigned_leading_byte b = (b \<le> 0x7f \<or> b = 0xcc \<or> b = 0xcd \<or> b = 0xce \<or> b = 0xcf)"

definition negative_fixint :: "byte \<Rightarrow> bool" where
  "negative_fixint b = (0xe0 \<le> b)"

section \<open>Transaction control codec (stream.go)\<close>

text \<open>
  \<^verbatim>\<open>TxnIsolationLevel\<close> is a \<^verbatim>\<open>uint\<close> and \<^verbatim>\<open>time.Duration\<close> an \<^verbatim>\<open>int64\<close>
  (nanoseconds): both are 64-bit words, the duration read as a signed number.
\<close>

type_synonym TxnIsolationLevel = "64 word"
type_synonym Duration = "64 word"

definition DefaultIsolationLevel :: TxnIsolationLevel where "DefaultIsolationLevel = 0"
definition ReadCommittedLevel :: TxnIsolationLevel where "ReadCommittedLevel = 1"
definition ReadConfirmedLevel :: TxnIsolationLevel where "ReadConfirmedLevel = 2"
definition BestEffortLevel :: TxnIsolationLevel where "BestEffortLevel = 3"

text \<open>
  The encoder is the msgpack library's; the model keeps what it has emitted as a list
  of items. \<open>Float64Seconds d\<close> is the float64 that \<^verbatim>\<open>d.Seconds()\<close> yields for the
  duration \<open>d\<close>; its IEEE bit pattern is not modelled. Every encoding call can fail,
  because the writer behind the encoder can: \<open>room\<close> is the number of items the writer
  still accepts, and a call on an encoder without room returns an error and emits
  nothing.
\<close>

datatype item =
    MapLen nat
  | Uint "64 word"
  | Float64Seconds Duration

record encoder =
  emitted :: "item list"
  room :: nat

definition emit :: "item \<Rightarrow> encoder \<Rightarrow> error option \<times> encoder" where
  "emit x enc =
     (if room enc = 0 then (Some (ErrExternal ''write''), enc)
      else (None, enc\<lparr>emitted := emitted enc @ [x], room := room enc - 1\<rparr>))"

definition EncodeMapLen :: "nat \<Rightarrow> encoder \<Rightarrow> error option \<times> encoder" where
  "EncodeMapLen l enc = emit (MapLen l) enc"

definition Encode_seconds :: "Duration \<Rightarrow> encoder \<Rightarrow> error option \<times> encoder" where
  "Encode_seconds d enc = emit (Float64Seconds d) enc"

text \<open>
  Modelled from the spec: \<^verbatim>\<open>encodeUint\<close> is a helper of this repository that is not
  among the source files at hand; the spec has it encode an unsigned integer, so it emits
  one unsigned-integer item.
\<close>

definition encodeUint :: "64 word \<Rightarrow> encoder \<Rightarrow> error option \<times> encoder" where
  "encodeUint v enc = emit (Uint v) enc"

text \<open>
  Go's \<^verbatim>\<open>err = f(...); if err != nil { return err }\<close>: run the next step only when the
  previous one returned no error.
\<close>

definition and_then ::
  "error option \<times> encoder \<Rightarrow> (encoder \<Rightarrow> error option \<times> encoder) \<Rightarrow> error option \<times> encoder"
where
  "and_then r f = (case r of (None, enc) \<Rightarrow> f enc | (Some e, enc) \<Rightarrow> (Some e, enc))"

text \<open>
  \<^verbatim>\<open>fillBegin\<close>. The two keys \<^verbatim>\<open>KeyTimeout\<close> and \<^verbatim>\<open>KeyTxnIsolation\<close> are constants
  declared outside the source files at hand, so they are parameters here.
\<close>

definition fillBegin ::
  "64 word \<Rightarrow> 64 word \<Rightarrow> encoder \<Rightarrow> TxnIsolationLevel \<Rightarrow> Duration \<Rightarrow> error option \<times> encoder"
where
  "fillBegin KeyTimeout KeyTxnIsolation enc txnIsolation timeout =
     (let hasTimeout = (0 < sint timeout);
          hasIsolationLevel = (txnIsolation \<noteq> DefaultIsolationLevel);
          mapLen0 = (0::nat);
          mapLen1 = (if hasTimeout then mapLen0 + 1 else mapLen0);
          mapLen = (if hasIsolationLevel then mapLen1 + 1 else mapLen1)
      in and_then (EncodeMapLen mapLen enc) (\<lambda>enc.
         and_then (if hasTimeout
                   then and_then (encodeUint KeyTimeout enc) (Encode_seconds timeout)
                   else (None, enc)) (\<lambda>enc.
         if hasIsolationLevel
         then and_then (encodeUint KeyTxnIsolation enc) (encodeUint txnIsolation)
         else (None, enc))))"

definition fillCommit :: "encoder \<Rightarrow> error option \<times> encoder" where
  "fillCommit enc = EncodeMapLen 0 enc"

definition fillRollback :: "encoder \<Rightarrow> error option \<times> encoder" where
  "fillRollback enc = EncodeMapLen 0 enc"

text \<open>
  The reading side, for stating what a body is: a map body is a map header followed by
  that many key/value pairs.
\<close>

fun pairs_of :: "item list \<Rightarrow> (item \<times> item) list option" where
  "pairs_of [] = Some []"
| "pairs_of [k] = None"
| "pairs_of (k # v # rest) =
     (case pairs_of rest of None \<Rightarrow> None | Some ps \<Rightarrow> Some ((k, v) # ps))"

definition decode_map :: "item list \<Rightarrow> (item \<times> item) list option" where
  "decode_map body =
     (case body of
        MapLen n # rest \<Rightarrow>
          (case pairs_of rest of
             None \<Rightarrow> None
           | Some ps \<Rightarrow> if length ps = n then Some ps else None)
      | _ \<Rightarrow> None)"

text \<open>The Begin body in the spec's words: which entries the map holds.\<close>

definition begin_entries ::
  "64 word \<Rightarrow> 64 word \<Rightarrow> TxnIsolationLevel \<Rightarrow> Duration \<Rightarrow> (item \<times> item) list"
where
  "begin_entries KeyTimeout KeyTxnIsolation i t =
     (if 0 < sint t then [(Uint KeyTimeout, Float64Seconds t)] else []) @
     (if i \<noteq> DefaultIsolationLevel then [(Uint KeyTxnIsolation, Uint i)] else [])"

definition begin_body ::
  "64 word \<Rightarrow> 64 word \<Rightarrow> TxnIsolationLevel \<Rightarrow> Duration \<Rightarrow> item list"
where
  "begin_body KeyTimeout KeyTxnIsolation i t =
     MapLen (length (begin_entries KeyTimeout KeyTxnIsolation i t)) #
     concat (map (\<lambda>(k, v). [k, v]) (begin_entries KeyTimeout KeyTxnIsolation i t))"

subsection \<open>Stream\<close>

record stream =
  stream_Id :: "64 word"
  stream_Conn :: conn_ptr

definition Stream_Do :: "stream \<Rightarrow> request \<Rightarrow> future" where
  "Stream_Do s req =
     (case req_conn req of
        Some c \<Rightarrow>
          if c \<noteq> stream_Conn s then ErrorFuture ErrNotBelong
          else SendOn (stream_Conn s) req (stream_Id s)
      | None \<Rightarrow> SendOn (stream_Conn s) req (stream_Id s))"

section \<open>The world outside: connection objects and dialing\<close>

text \<open>
  Modelled from the spec: the single-node connection (\<^verbatim>\<open>tarantool.Connection\<close>, with
  \<^verbatim>\<open>Connect\<close>, \<^verbatim>\<open>Close\<close>, \<^verbatim>\<open>ConnectedNow\<close>, \<^verbatim>\<open>ClosedNow\<close>, \<^verbatim>\<open>Addr\<close>) is an external
  collaborator of these files. A connection object records the address it was dialed
  with, what \<^verbatim>\<open>ConnectedNow()\<close> and \<^verbatim>\<open>ClosedNow()\<close> report at the moment, and the
  error its \<^verbatim>\<open>Close()\<close> returns (\<open>None\<close> is \<^verbatim>\<open>nil\<close>).
\<close>

record connection =
  conn_addr :: string
  connectedNow :: bool
  closedNow :: bool
  closeErr :: "error option"

text \<open>
  The world: the store of connection objects, the next unused reference, and the log
  of every dial (the address dialed and the pointer returned), oldest first.
\<close>

record world =
  heap :: "conn_ref \<Rightarrow> connection"
  nextRef :: conn_ref
  dial_log :: "(string \<times> conn_ptr) list"

text \<open>
  The network decides every dial. \<open>net k a\<close> is the answer to dialing address \<open>a\<close>
  when \<open>k\<close> dials were made before: refused with an error (no connection object is
  returned), or accepted, giving a new connection object that reports connected-now or
  not (a connection with reconnects configured is returned before its transport is up)
  and that will return the given error from \<^verbatim>\<open>Close()\<close>. Following the spec's
  \<^verbatim>\<open>dial(address, options) \<rightarrow> connection | error\<close>, a dial never returns both.
\<close>

datatype dial_answer =
    Refused error
  | Accepted bool "error option"

type_synonym dialer = "nat \<Rightarrow> string \<Rightarrow> dial_answer"

definition Connect :: "dialer \<Rightarrow> string \<Rightarrow> world \<Rightarrow> conn_ptr \<times> error option \<times> world" where
  "Connect net a w =
     (case net (length (dial_log w)) a of
        Refused e \<Rightarrow> (None, Some e, w\<lparr>dial_log := dial_log w @ [(a, None)]\<rparr>)
      | Accepted live cerr \<Rightarrow>
          (Some (nextRef w), None,
           w\<lparr>heap := (heap w)(nextRef w :=
                 \<lparr>conn_addr = a, connectedNow = live, closedNow = False, closeErr = cerr\<rparr>),
             nextRef := Suc (nextRef w),
             dial_log := dial_log w @ [(a, Some (nextRef w))]\<rparr>))"

definition conn_Close :: "conn_ref \<Rightarrow> world \<Rightarrow> error option \<times> world" where
  "conn_Close c w =
     (closeErr (heap w c),
      w\<lparr>heap := (heap w)(c := (heap w c)\<lparr>connectedNow := False, closedNow := True\<rparr>)\<rparr>)"

definition ConnectedNow :: "world \<Rightarrow> conn_ref \<Rightarrow> bool" where
  "ConnectedNow w c = connectedNow (heap w c)"

definition ClosedNow :: "world \<Rightarrow> conn_ref \<Rightarrow> bool" where
  "ClosedNow w c = closedNow (heap w c)"

definition Addr :: "world \<Rightarrow> conn_ref \<Rightarrow> string" where
  "Addr w c = conn_addr (heap w c)"

section \<open>The connection pool (package multi)\<close>

definition connConnected :: "32 word" where "connConnected = 0"
definition connClosed :: "32 word" where "connClosed = 1"

fun indexOf_from :: "int \<Rightarrow> string \<Rightarrow> string list \<Rightarrow> int" where
  "indexOf_from i sstring [] = - 1"
| "indexOf_from i sstring (v # data) =
     (if sstring = v then i else indexOf_from (i + 1) sstring data)"

definition indexOf :: "string \<Rightarrow> string list \<Rightarrow> int" where
  "indexOf sstring data = indexOf_from 0 sstring data"

record optsMulti =
  CheckTimeout :: Duration
  NodesGetFunctionName :: string
  ClusterDiscoveryTime :: Duration

text \<open>
  \<^verbatim>\<open>ConnectionMulti\<close>. The control channel is only ever closed, so the model keeps
  whether it has been. The pool map never stores a nil pointer (both writers check
  \<^verbatim>\<open>conn != nil\<close> first), so \<open>pool p a = None\<close> is both "no such key" and the nil that
  \<^verbatim>\<open>connMulti.pool[addr]\<close> yields for it. The lock, the notification channel and the
  connection options carry no data the operations below read.
\<close>

record connectionMulti =
  addrs :: "string list"
  opts :: optsMulti
  state :: "32 word"
  control_closed :: bool
  pool :: "string \<rightharpoonup> conn_ref"
  fallback :: conn_ptr

definition Second :: Duration where "Second = 1000000000"

definition getState :: "connectionMulti \<Rightarrow> 32 word" where
  "getState p = state p"

definition getConnectionFromPool :: "string \<Rightarrow> connectionMulti \<Rightarrow> conn_ptr" where
  "getConnectionFromPool a p = pool p a"

definition setConnectionToPool :: "string \<Rightarrow> conn_ref \<Rightarrow> connectionMulti \<Rightarrow> connectionMulti" where
  "setConnectionToPool a c p = p\<lparr>pool := (pool p)(a \<mapsto> c)\<rparr>"

definition deleteConnectionFromPool :: "string \<Rightarrow> connectionMulti \<Rightarrow> connectionMulti" where
  "deleteConnectionFromPool a p = p\<lparr>pool := (pool p)(a := None)\<rparr>"

subsection \<open>Warm-up\<close>

fun warmUp_loop ::
  "dialer \<Rightarrow> string list \<Rightarrow> bool \<Rightarrow> error option list \<Rightarrow> connectionMulti \<Rightarrow> world
   \<Rightarrow> bool \<times> error option list \<times> connectionMulti \<times> world"
where
  "warmUp_loop net [] somebodyAlive errs p w = (somebodyAlive, errs, p, w)"
| "warmUp_loop net (a # rest) somebodyAlive errs p w =
     (case Connect net a w of
        (Some c, None, w1) \<Rightarrow>
          let p1 = (if fallback p = None then p\<lparr>fallback := Some c\<rparr> else p);
              p2 = p1\<lparr>pool := (pool p1)(a \<mapsto> c)\<rparr>
          in warmUp_loop net rest (if ConnectedNow w1 c then True else somebodyAlive)
               (errs @ [None]) p2 w1
      | (conn, err, w1) \<Rightarrow> warmUp_loop net rest somebodyAlive (errs @ [err]) p w1)"

definition warmUp ::
  "dialer \<Rightarrow> connectionMulti \<Rightarrow> world \<Rightarrow> bool \<times> error option list \<times> connectionMulti \<times> world"
where
  "warmUp net p w = warmUp_loop net (addrs p) False [] p w"

subsection \<open>Selection\<close>

text \<open>
  The loop of \<^verbatim>\<open>getCurrentConnection\<close>, threading the fallback: it returns the pointer
  handed back and the fallback as the loop leaves it.
\<close>

fun scanCurrent ::
  "world \<Rightarrow> (string \<rightharpoonup> conn_ref) \<Rightarrow> string list \<Rightarrow> conn_ptr \<Rightarrow> conn_ptr \<times> conn_ptr"
where
  "scanCurrent w pl [] fb = (fb, fb)"
| "scanCurrent w pl (a # rest) fb =
     (case pl a of
        None \<Rightarrow> scanCurrent w pl rest fb
      | Some conn \<Rightarrow>
          if ConnectedNow w conn then (Some conn, fb)
          else scanCurrent w pl rest (Some conn))"

definition getCurrentConnection :: "world \<Rightarrow> connectionMulti \<Rightarrow> conn_ptr \<times> connectionMulti" where
  "getCurrentConnection w p =
     (case scanCurrent w (pool p) (addrs p) (fallback p) of
        (r, fb) \<Rightarrow> (r, p\<lparr>fallback := fb\<rparr>))"

subsection \<open>Close\<close>

datatype panic = CloseOfClosedChannel | NilDereference

text \<open>
  The loop over the pool map. Go visits the entries of a map in an order of its own
  choosing, so the order is a parameter: \<open>ks\<close> lists the keys in the order of the
  visit, and \<open>range_order ks m\<close> says that it is an order of the map \<open>m\<close>.
\<close>

definition range_order :: "string list \<Rightarrow> (string \<rightharpoonup> conn_ref) \<Rightarrow> bool" where
  "range_order ks m = (distinct ks \<and> set ks = dom m)"

fun closeAll :: "conn_ref list \<Rightarrow> error option \<Rightarrow> world \<Rightarrow> error option \<times> world" where
  "closeAll [] err w = (err, w)"
| "closeAll (conn # rest) err w =
     (case conn_Close conn w of
        (e, w1) \<Rightarrow> closeAll rest (if err = None then e else err) w1)"

definition Close ::
  "string list \<Rightarrow> connectionMulti \<Rightarrow> world \<Rightarrow> panic + (error option \<times> connectionMulti \<times> world)"
where
  "Close ks p w =
     (if control_closed p then Inl CloseOfClosedChannel
      else
        let p1 = p\<lparr>control_closed := True, state := connClosed\<rparr>;
            (err, w1) = closeAll (List.map_filter (pool p1) ks) None w;
            w2 = (case fallback p1 of None \<Rightarrow> w1 | Some f \<Rightarrow> snd (conn_Close f w1))
        in Inr (err, p1, w2))"

subsection \<open>Construction\<close>

text \<open>
  \<^verbatim>\<open>ConnectWithOpts\<close> returns the pair \<^verbatim>\<open>(connMulti, err)\<close>; the world is returned
  beside it. Starting the maintenance task (\<^verbatim>\<open>go connMulti.checker()\<close>) changes neither.
  The \<^verbatim>\<open>Close()\<close> of the failure path visits a pool map that warm-up has built, so the
  order of the visit is given as a function of the map: \<open>ord m\<close> is the order in which
  Go visits \<open>m\<close>.
\<close>

definition ConnectWithOpts ::
  "dialer \<Rightarrow> ((string \<rightharpoonup> conn_ref) \<Rightarrow> string list) \<Rightarrow> string list \<Rightarrow> optsMulti \<Rightarrow> world
   \<Rightarrow> panic + ((connectionMulti option \<times> error option) \<times> world)"
where
  "ConnectWithOpts net ord addrs0 opts0 w =
     (if length addrs0 = 0 then Inr ((None, Some ErrEmptyAddrs), w)
      else if sint (CheckTimeout opts0) \<le> 0 then Inr ((None, Some ErrWrongCheckTimeout), w)
      else
        let opts1 = (if sint (ClusterDiscoveryTime opts0) \<le> 0
                     then opts0\<lparr>ClusterDiscoveryTime := 60 * Second\<rparr> else opts0);
            connMulti = \<lparr>addrs = addrs0, opts = opts1, state = connConnected,
                         control_closed = False, pool = Map.empty, fallback = None\<rparr>
        in case warmUp net connMulti w of
             (somebodyAlive, errs, p1, w1) \<Rightarrow>
               if \<not> somebodyAlive then
                 (case Close (ord (pool p1)) p1 w1 of
                    Inl pn \<Rightarrow> Inl pn
                  | Inr (e, p2, w2) \<Rightarrow> Inr ((None, Some ErrNoConnection), w2))
               else Inr ((Some p1, None), w1))"

definition Connect_multi ::
  "dialer \<Rightarrow> ((string \<rightharpoonup> conn_ref) \<Rightarrow> string list) \<Rightarrow> string list \<Rightarrow> world
   \<Rightarrow> panic + ((connectionMulti option \<times> error option) \<times> world)"
where
  "Connect_multi net ord addrs0 w =
     ConnectWithOpts net ord addrs0
       \<lparr>CheckTimeout = 1 * Second, NodesGetFunctionName = [], ClusterDiscoveryTime = 0\<rparr> w"

subsection \<open>The maintenance task's discovery tick\<close>

text \<open>The two loops of the \<^verbatim>\<open>refreshTimer\<close> case of \<^verbatim>\<open>checker\<close>.\<close>

fun fillPool ::
  "dialer \<Rightarrow> string list \<Rightarrow> connectionMulti \<Rightarrow> world \<Rightarrow> connectionMulti \<times> world"
where
  "fillPool net [] p w = (p, w)"
| "fillPool net (v # rest) p w =
     (if indexOf v (addrs p) < 0 then
        (case Connect net v w of
           (Some conn, err, w1) \<Rightarrow> fillPool net rest (setConnectionToPool v conn p) w1
         | (None, err, w1) \<Rightarrow> fillPool net rest p w1)
      else fillPool net rest p w)"

fun clearPool ::
  "string list \<Rightarrow> string list \<Rightarrow> connectionMulti \<Rightarrow> world \<Rightarrow> connectionMulti \<times> world"
where
  "clearPool new [] p w = (p, w)"
| "clearPool new (v # rest) p w =
     (if indexOf v new < 0 then
        (let w1 = (case getConnectionFromPool v p of
                     Some con \<Rightarrow> snd (conn_Close con w)
                   | None \<Rightarrow> w)
         in clearPool new rest (deleteConnectionFromPool v p) w1)
      else clearPool new rest p w)"

text \<open>
  One firing of the discovery timer. The remote call \<^verbatim>\<open>Call17Typed\<close> goes to the
  selected connection (which updates the fallback as every selection does); what it
  returns and decodes into \<^verbatim>\<open>resp\<close> is the network's to decide and is the parameter
  \<open>(err, resp)\<close>: \<open>err\<close> is the call's or the decoder's error, \<open>resp\<close> the decoded
  \<^verbatim>\<open>[][]string\<close>.
\<close>

definition refreshTick ::
  "dialer \<Rightarrow> error option \<times> string list list \<Rightarrow> connectionMulti \<Rightarrow> world
   \<Rightarrow> connectionMulti \<times> world"
where
  "refreshTick net answer p w =
     (if getState p = connClosed \<or> NodesGetFunctionName (opts p) = [] then (p, w)
      else
        case getCurrentConnection w p of
          (cur, p0) \<Rightarrow>
            (case answer of
               (Some e, resp) \<Rightarrow> (p0, w)
             | (None, resp) \<Rightarrow>
                 if length resp > 0 \<and> length (hd resp) > 0 then
                   (let new = hd resp in
                    case fillPool net new p0 w of
                      (p1, w1) \<Rightarrow>
                        (case clearPool new (addrs p1) p1 w1 of
                           (p2, w2) \<Rightarrow> (p2\<lparr>addrs := new\<rparr>, w2)))
                 else (p0, w)))"

subsection \<open>The maintenance task's connection-closed notification\<close>

text \<open>
  The \<^verbatim>\<open>notify\<close> case of \<^verbatim>\<open>checker\<close>, for an event of the connection \<open>econn\<close>: when that
  connection reports closed-now and its address still has a pool entry, the address is
  redialed; a connection returned replaces the entry, none evicts it.
\<close>

definition notifyEvent ::
  "dialer \<Rightarrow> conn_ref \<Rightarrow> connectionMulti \<Rightarrow> world \<Rightarrow> connectionMulti \<times> world"
where
  "notifyEvent net econn p w =
     (if getState p = connClosed then (p, w)
      else if ClosedNow w econn then
        (let addr = Addr w econn in
         case getConnectionFromPool addr p of
           None \<Rightarrow> (p, w)
         | Some entry \<Rightarrow>
             (case Connect net addr w of
                (Some conn, err, w1) \<Rightarrow> (setConnectionToPool addr conn p, w1)
              | (None, err, w1) \<Rightarrow> (deleteConnectionFromPool addr p, w1)))
      else (p, w))"

subsection \<open>Do\<close>

definition ConnectionMulti_Do ::
  "request \<Rightarrow> connectionMulti \<Rightarrow> world \<Rightarrow> panic + (future \<times> connectionMulti)"
where
  "ConnectionMulti_Do req p w =
     (case req_conn req of
        Some None \<Rightarrow> Inl NilDereference
      | Some (Some x) \<Rightarrow>
          (case getConnectionFromPool (Addr w x) p of
             None \<Rightarrow> Inr (ErrorFuture ErrNotBelong, p)
           | Some entry \<Rightarrow> Inr (DoOn (Some x) req, p))
      | None \<Rightarrow>
          (case getCurrentConnection w p of
             (cur, p1) \<Rightarrow> Inr (DoOn cur req, p1)))"

subsection \<open>Notions used to state the properties\<close>

text \<open>The non-nil pool entries of the tracked addresses, in the configured order.\<close>

definition tracked_entries :: "connectionMulti \<Rightarrow> conn_ref list" where
  "tracked_entries p = List.map_filter (pool p) (addrs p)"

text \<open>
  What \<^verbatim>\<open>Close()\<close> does to a connection object, and the world in which the connections
  of a set have been closed.
\<close>

definition closed_conn :: "connection \<Rightarrow> connection" where
  "closed_conn x = x\<lparr>connectedNow := False, closedNow := True\<rparr>"

definition close_set :: "conn_ref set \<Rightarrow> world \<Rightarrow> world" where
  "close_set S w = w\<lparr>heap := (\<lambda>c. if c \<in> S then closed_conn (heap w c) else heap w c)\<rparr>"

text \<open>
  The error of the first connection of a list whose \<^verbatim>\<open>Close()\<close> returns one; \<open>None\<close>
  when none does.
\<close>

definition first_close_error :: "world \<Rightarrow> conn_ref list \<Rightarrow> error option" where
  "first_close_error w cs =
     (case find (\<lambda>c. closeErr (heap w c) \<noteq> None) cs of
        None \<Rightarrow> None
      | Some c \<Rightarrow> closeErr (heap w c))"

text \<open>
  The pool map is keyed by address: every entry is a connection that exists and that
  was dialed with the address it is stored under.
\<close>

definition pool_wf :: "world \<Rightarrow> connectionMulti \<Rightarrow> bool" where
  "pool_wf w p = (\<forall>a c. pool p a = Some c \<longrightarrow> c < nextRef w \<and> Addr w c = a)"

text \<open>
  The dials a step has added to the log, and the connection the last successful dial of
  an address returned among them.
\<close>

definition new_dials :: "world \<Rightarrow> world \<Rightarrow> (string \<times> conn_ptr) list" where
  "new_dials w w' = drop (length (dial_log w)) (dial_log w')"

fun last_dialed :: "(string \<times> conn_ptr) list \<Rightarrow> string \<Rightarrow> conn_ptr" where
  "last_dialed [] a = None"
| "last_dialed ((x, r) # rest) a =
     (case last_dialed rest a of
        Some c \<Rightarrow> Some c
      | None \<Rightarrow> if x = a then r else None)"

section \<open>Sample states\<close>

text \<open>
  Small concrete worlds and pools on which the theorems below are instantiated.
  \<open>world_AB\<close> and \<open>pool_AB\<close> are what construction leaves for the addresses A and B when
  both nodes are up.
\<close>

definition no_connection :: connection where
  "no_connection = \<lparr>conn_addr = [], connectedNow = False, closedNow = False, closeErr = None\<rparr>"

definition empty_world :: world where
  "empty_world = \<lparr>heap = (\<lambda>c. no_connection), nextRef = 0, dial_log = []\<rparr>"

definition net_up :: dialer where
  "net_up k a = Accepted True None"

definition net_pending :: dialer where
  "net_pending k a = Accepted False None"

definition net_down :: dialer where
  "net_down k a = Refused (ErrExternal ''dial'')"

definition key_order :: "string list \<Rightarrow> (string \<rightharpoonup> conn_ref) \<Rightarrow> string list" where
  "key_order universe m = filter (\<lambda>a. m a \<noteq> None) (remdups universe)"

definition sample_opts :: optsMulti where
  "sample_opts =
     \<lparr>CheckTimeout = Second, NodesGetFunctionName = ''nodes'',
      ClusterDiscoveryTime = 60 * Second\<rparr>"

definition world_AB :: world where
  "world_AB =
     \<lparr>heap = (\<lambda>c. no_connection)
        (0 := \<lparr>conn_addr = ''A'', connectedNow = True, closedNow = False, closeErr = None\<rparr>,
         1 := \<lparr>conn_addr = ''B'', connectedNow = True, closedNow = False, closeErr = None\<rparr>),
      nextRef = 2,
      dial_log = [(''A'', Some 0), (''B'', Some 1)]\<rparr>"

definition world_AB_down :: world where
  "world_AB_down =
     \<lparr>heap = (\<lambda>c. no_connection)
        (0 := \<lparr>conn_addr = ''A'', connectedNow = False, closedNow = False, closeErr = None\<rparr>,
         1 := \<lparr>conn_addr = ''B'', connectedNow = False, closedNow = False, closeErr = None\<rparr>),
      nextRef = 2,
      dial_log = [(''A'', Some 0), (''B'', Some 1)]\<rparr>"

definition pool_AB :: connectionMulti where
  "pool_AB =
     \<lparr>addrs = [''A'', ''B''], opts = sample_opts, state = connConnected,
      control_closed = False, pool = [''A'' \<mapsto> 0, ''B'' \<mapsto> 1], fallback = Some 0\<rparr>"

text \<open>
  The pool after the node A dropped its connection 0 and the maintenance task redialed
  it: the pool entry of A is the new connection 2, the fallback is still connection 0,
  whose \<^verbatim>\<open>Close()\<close> returns an error.
\<close>

definition world_redialed :: world where
  "world_redialed =
     \<lparr>heap = (\<lambda>c. no_connection)
        (0 := \<lparr>conn_addr = ''A'', connectedNow = False, closedNow = True,
               closeErr = Some (ErrExternal ''close'')\<rparr>,
         1 := \<lparr>conn_addr = ''B'', connectedNow = True, closedNow = False, closeErr = None\<rparr>,
         2 := \<lparr>conn_addr = ''A'', connectedNow = True, closedNow = False, closeErr = None\<rparr>),
      nextRef = 3,
      dial_log = [(''A'', Some 0), (''B'', Some 1), (''A'', Some 2)]\<rparr>"

definition pool_redialed :: connectionMulti where
  "pool_redialed =
     \<lparr>addrs = [''A'', ''B''], opts = sample_opts, state = connConnected,
      control_closed = False, pool = [''A'' \<mapsto> 2, ''B'' \<mapsto> 1], fallback = Some 0\<rparr>"

text \<open>
  A network whose first connection will return an error from \<^verbatim>\<open>Close()\<close>, and the world
  construction leaves on it for the addresses A and B; \<open>world_redialed\<close> is this world
  after connection 0 was closed from outside and the maintenance task redialed A.
\<close>

definition net_close_fails_first :: dialer where
  "net_close_fails_first k a =
     (if k = 0 then Accepted True (Some (ErrExternal ''close'')) else Accepted True None)"

definition world_AB_flawed :: world where
  "world_AB_flawed =
     \<lparr>heap = (\<lambda>c. no_connection)
        (0 := \<lparr>conn_addr = ''A'', connectedNow = True, closedNow = False,
               closeErr = Some (ErrExternal ''close'')\<rparr>,
         1 := \<lparr>conn_addr = ''B'', connectedNow = True, closedNow = False, closeErr = None\<rparr>),
      nextRef = 2,
      dial_log = [(''A'', Some 0), (''B'', Some 1)]\<rparr>"

text \<open>
  The pool and the world after a discovery tick on \<open>pool_AB\<close> that returned the
  addresses B and C.
\<close>

definition world_BC :: world where
  "world_BC =
     \<lparr>heap = (\<lambda>c. no_connection)
        (0 := \<lparr>conn_addr = ''A'', connectedNow = False, closedNow = True, closeErr = None\<rparr>,
         1 := \<lparr>conn_addr = ''B'', connectedNow = True, closedNow = False, closeErr = None\<rparr>,
         2 := \<lparr>conn_addr = ''C'', connectedNow = True, closedNow = False, closeErr = None\<rparr>),
      nextRef = 3,
      dial_log = [(''A'', Some 0), (''B'', Some 1), (''C'', Some 2)]\<rparr>"

definition pool_BC :: connectionMulti where
  "pool_BC =
     \<lparr>addrs = [''B'', ''C''], opts = sample_opts, state = connConnected,
      control_closed = False, pool = [''B'' \<mapsto> 1, ''C'' \<mapsto> 2], fallback = Some 0\<rparr>"

section \<open>Properties of the wire codec helpers\<close>

lemmas msgpcode_defs =
  PosFixedNumHigh_def NegFixedNumLow_def Uint8_def Uint16_def Uint32_def Uint64_def
  FixedStrLow_def FixedStrHigh_def Str8_def Str16_def Str32_def
  FixedArrayLow_def FixedArrayHigh_def Array16_def Array32_def
  FixedMapLow_def FixedMapHigh_def Map16_def Map32_def

lemma msgpackIsUint_ranges:
  "msgpackIsUint b \<longleftrightarrow> b \<le> 0x7f \<or> (0xcc \<le> b \<and> b \<le> 0xcf) \<or> 0xe0 \<le> b"
proof -
  have "(b = 0xcc \<or> b = 0xcd \<or> b = 0xce \<or> b = 0xcf) \<longleftrightarrow> (0xcc \<le> b \<and> b \<le> 0xcf)"
    by (auto simp: word_le_nat_alt word_unat_eq_iff)
  then show ?thesis
    by (auto simp: msgpackIsUint_def IsFixedNum_def msgpcode_defs)
qed

lemma msgpackIsUint_iff:
  "msgpackIsUint b \<longleftrightarrow> unsigned_leading_byte b \<or> negative_fixint b"
  by (auto simp: msgpackIsUint_def IsFixedNum_def msgpcode_defs negative_fixint_def
      unsigned_leading_byte_def)

text \<open>
  C9. The claim has \<open>msgpackIsUint\<close> true exactly on the leading bytes of unsigned
  integers and false on every negative fixint. The code calls \<^verbatim>\<open>IsFixedNum\<close>, which
  covers both fixint ranges: on the byte \<open>0xff\<close>, the negative fixint that encodes -1 and
  begins no unsigned integer, \<open>msgpackIsUint\<close> is true.
\<close>

theorem msgpackIsUint_negative_fixint:
  "msgpackIsUint 0xff \<and> negative_fixint 0xff \<and> \<not> unsigned_leading_byte 0xff"
  by (simp add: msgpackIsUint_def IsFixedNum_def msgpcode_defs negative_fixint_def
      unsigned_leading_byte_def)

section \<open>Properties of the transaction control codec\<close>

lemma fillBegin_result:
  "length (begin_body kT kI i t) \<le> room enc \<Longrightarrow>
   fillBegin kT kI enc i t =
     (None, enc\<lparr>emitted := emitted enc @ begin_body kT kI i t,
                  room := room enc - length (begin_body kT kI i t)\<rparr>)"
  by (cases "0 < sint t"; cases "i = DefaultIsolationLevel")
     (auto simp: fillBegin_def begin_body_def begin_entries_def and_then_def EncodeMapLen_def
        encodeUint_def Encode_seconds_def emit_def Let_def)

lemma fillBegin_fails:
  "\<not> length (begin_body kT kI i t) \<le> room enc \<Longrightarrow>
   fst (fillBegin kT kI enc i t) = Some (ErrExternal ''write'')"
  by (cases "0 < sint t"; cases "i = DefaultIsolationLevel")
     (auto simp: fillBegin_def begin_body_def begin_entries_def and_then_def EncodeMapLen_def
        encodeUint_def Encode_seconds_def emit_def Let_def)

text \<open>
  C2. For every isolation level \<open>i\<close> and timeout \<open>t\<close>, \<open>fillBegin\<close> succeeds exactly
  when the writer takes the whole body, and then what it has emitted is \<open>begin_body\<close>: a
  map header followed by the entries of \<open>begin_entries\<close>, which decodes as a map with
  those entries. The entries are the timeout key with the float64 seconds of \<open>t\<close>,
  present iff \<open>t > 0\<close> (as a signed 64-bit number), and the isolation key with \<open>i\<close> as an
  unsigned integer, present iff \<open>i\<close> is not the default level; so the map has 0, 1 or 2
  entries, one for each condition that holds.
\<close>

theorem fillBegin_body:
  "(fst (fillBegin kT kI enc i t) = None \<longleftrightarrow> length (begin_body kT kI i t) \<le> room enc)
   \<and> (fst (fillBegin kT kI enc i t) = None \<longrightarrow>
        emitted (snd (fillBegin kT kI enc i t)) = emitted enc @ begin_body kT kI i t)
   \<and> decode_map (begin_body kT kI i t) = Some (begin_entries kT kI i t)
   \<and> length (begin_entries kT kI i t) =
        (if 0 < sint t then 1 else 0) + (if i \<noteq> DefaultIsolationLevel then 1 else 0)
   \<and> length (begin_entries kT kI i t) \<in> {0, 1, 2}
   \<and> ((Uint kT, Float64Seconds t) \<in> set (begin_entries kT kI i t) \<longleftrightarrow> 0 < sint t)
   \<and> ((Uint kI, Uint i) \<in> set (begin_entries kT kI i t) \<longleftrightarrow> i \<noteq> DefaultIsolationLevel)
   \<and> (\<forall>k v. (k, v) \<in> set (begin_entries kT kI i t) \<longrightarrow>
         (k, v) = (Uint kT, Float64Seconds t) \<or> (k, v) = (Uint kI, Uint i))"
proof -
  have dec: "decode_map (begin_body kT kI i t) = Some (begin_entries kT kI i t)"
    by (simp add: decode_map_def begin_body_def begin_entries_def)
  have len: "length (begin_entries kT kI i t) =
        (if 0 < sint t then 1 else 0) + (if i \<noteq> DefaultIsolationLevel then 1 else 0)"
    by (simp add: begin_entries_def)
  have mem: "\<forall>k v. (k, v) \<in> set (begin_entries kT kI i t) \<longrightarrow>
         (k, v) = (Uint kT, Float64Seconds t) \<or> (k, v) = (Uint kI, Uint i)"
    by (simp add: begin_entries_def)
  have kt: "(Uint kT, Float64Seconds t) \<in> set (begin_entries kT kI i t) \<longleftrightarrow> 0 < sint t"
    by (simp add: begin_entries_def)
  have ki: "(Uint kI, Uint i) \<in> set (begin_entries kT kI i t) \<longleftrightarrow> i \<noteq> DefaultIsolationLevel"
    by (simp add: begin_entries_def)
  have ok: "fst (fillBegin kT kI enc i t) = None \<longleftrightarrow> length (begin_body kT kI i t) \<le> room enc"
    using fillBegin_result [of kT kI i t enc] fillBegin_fails [of kT kI i t enc]
    by (cases "length (begin_body kT kI i t) \<le> room enc") simp_all
  have out: "fst (fillBegin kT kI enc i t) = None \<longrightarrow>
        emitted (snd (fillBegin kT kI enc i t)) = emitted enc @ begin_body kT kI i t"
    using fillBegin_result [of kT kI i t enc] fillBegin_fails [of kT kI i t enc]
    by (cases "length (begin_body kT kI i t) \<le> room enc") simp_all
  from len have "length (begin_entries kT kI i t) \<in> {0, 1, 2}"
    by (simp split: if_splits)
  with dec len mem kt ki ok out show ?thesis by blast
qed

theorem fillBegin_body_witness:
  "fillBegin 0x56 0x59 \<lparr>emitted = [], room = 5\<rparr> ReadCommittedLevel (2 * Second) =
     (None, \<lparr>emitted = [MapLen 2, Uint 0x56, Float64Seconds 2000000000, Uint 0x59, Uint 1],
             room = 0\<rparr>)
   \<and> decode_map [MapLen 2, Uint 0x56, Float64Seconds 2000000000, Uint 0x59, Uint 1] =
       Some [(Uint 0x56, Float64Seconds 2000000000), (Uint 0x59, Uint 1)]
   \<and> emitted (snd (fillBegin 0x56 0x59 \<lparr>emitted = [], room = 1\<rparr> DefaultIsolationLevel 0))
       = [MapLen 0]
   \<and> emitted (snd (fillBegin 0x56 0x59 \<lparr>emitted = [], room = 3\<rparr> BestEffortLevel 0))
       = [MapLen 1, Uint 0x59, Uint 3]
   \<and> emitted (snd (fillBegin 0x56 0x59 \<lparr>emitted = [], room = 3\<rparr> BestEffortLevel (- 5)))
       = [MapLen 1, Uint 0x59, Uint 3]"
  using fillBegin_body [of "0x56" "0x59" "\<lparr>emitted = [], room = 5\<rparr>" ReadCommittedLevel "2 * Second"]
    fillBegin_body [of "0x56" "0x59" "\<lparr>emitted = [], room = 1\<rparr>" DefaultIsolationLevel 0]
  by (simp add: fillBegin_result begin_body_def begin_entries_def decode_map_def Second_def
      ReadCommittedLevel_def DefaultIsolationLevel_def BestEffortLevel_def)

text \<open>
  Commit and Rollback bodies: both functions emit the header of an empty map and
  nothing else, whatever the encoder holds already; they fail only when the writer
  takes nothing.
\<close>

theorem fillCommit_fillRollback_empty_map:
  "fillCommit enc = fillRollback enc
   \<and> (0 < room enc \<longrightarrow>
        fillCommit enc = (None, enc\<lparr>emitted := emitted enc @ [MapLen 0], room := room enc - 1\<rparr>))
   \<and> (room enc = 0 \<longrightarrow> fillCommit enc = (Some (ErrExternal ''write''), enc))
   \<and> decode_map [MapLen 0] = Some []"
  by (simp add: fillCommit_def fillRollback_def EncodeMapLen_def emit_def decode_map_def)

theorem fillCommit_fillRollback_empty_map_witness:
  "fillCommit \<lparr>emitted = [], room = 1\<rparr> = (None, \<lparr>emitted = [MapLen 0], room = 0\<rparr>)
   \<and> fillRollback \<lparr>emitted = [], room = 1\<rparr> = (None, \<lparr>emitted = [MapLen 0], room = 0\<rparr>)"
  using fillCommit_fillRollback_empty_map [of "\<lparr>emitted = [], room = 1\<rparr>"]
  by auto

section \<open>Properties of the stream\<close>

text \<open>
  C8. For every stream \<open>s\<close> and request \<open>r\<close>: when \<open>r\<close> declares a bound connection
  other than the stream's, \<open>Stream_Do\<close> returns a future failed with the binding-mismatch
  error and reaches no connection; otherwise (the request is not bound, or is bound to
  the stream's connection) it hands \<open>r\<close> to the stream connection's \<^verbatim>\<open>send\<close>, tagged with
  the stream id.
\<close>

theorem Stream_Do_binding:
  "(\<forall>c. req_conn r = Some c \<and> c \<noteq> stream_Conn s \<longrightarrow>
       Stream_Do s r = ErrorFuture ErrNotBelong
       \<and> is_BindingMismatchError ErrNotBelong
       \<and> \<not> touches_connection (Stream_Do s r))
   \<and> ((req_conn r = None \<or> req_conn r = Some (stream_Conn s)) \<longrightarrow>
       Stream_Do s r = SendOn (stream_Conn s) r (stream_Id s))"
  by (auto simp: Stream_Do_def is_BindingMismatchError_def)

theorem Stream_Do_binding_witness:
  "Stream_Do \<lparr>stream_Id = 7, stream_Conn = Some 0\<rparr> \<lparr>req_code = 1, req_conn = Some (Some 1)\<rparr>
     = ErrorFuture ErrNotBelong
   \<and> Stream_Do \<lparr>stream_Id = 7, stream_Conn = Some 0\<rparr> \<lparr>req_code = 1, req_conn = Some (Some 0)\<rparr>
     = SendOn (Some 0) \<lparr>req_code = 1, req_conn = Some (Some 0)\<rparr> 7
   \<and> Stream_Do \<lparr>stream_Id = 7, stream_Conn = Some 0\<rparr> \<lparr>req_code = 1, req_conn = None\<rparr>
     = SendOn (Some 0) \<lparr>req_code = 1, req_conn = None\<rparr> 7"
  using
    Stream_Do_binding [of "\<lparr>req_code = 1, req_conn = Some (Some 1)\<rparr>"
      "\<lparr>stream_Id = 7, stream_Conn = Some 0\<rparr>"]
    Stream_Do_binding [of "\<lparr>req_code = 1, req_conn = Some (Some 0)\<rparr>"
      "\<lparr>stream_Id = 7, stream_Conn = Some 0\<rparr>"]
    Stream_Do_binding [of "\<lparr>req_code = 1, req_conn = None\<rparr>"
      "\<lparr>stream_Id = 7, stream_Conn = Some 0\<rparr>"]
  by simp

section \<open>Properties of the connection pool\<close>

subsection \<open>Selection\<close>

lemma map_filter_Cons:
  "List.map_filter f (x # xs) =
     (case f x of None \<Rightarrow> List.map_filter f xs | Some y \<Rightarrow> y # List.map_filter f xs)"
  by (simp add: List.map_filter_def split: option.splits)

lemma map_filter_Nil: "List.map_filter f [] = []"
  by (simp add: List.map_filter_def)

lemma scanCurrent_fallback:
  "snd (scanCurrent w pl as fb) =
     (let pre = takeWhile (\<lambda>c. \<not> ConnectedNow w c) (List.map_filter pl as)
      in if pre = [] then fb else Some (last pre))"
  by (induction as arbitrary: fb)
     (auto simp: map_filter_Cons map_filter_Nil Let_def split: option.splits)

lemma scanCurrent_result:
  "fst (scanCurrent w pl as fb) =
     (case find (ConnectedNow w) (List.map_filter pl as) of
        Some c \<Rightarrow> Some c
      | None \<Rightarrow> snd (scanCurrent w pl as fb))"
  by (induction as arbitrary: fb)
     (auto simp: map_filter_Cons map_filter_Nil split: option.splits)

lemma takeWhile_not_find_None:
  "find P xs = None \<Longrightarrow> takeWhile (\<lambda>c. \<not> P c) xs = xs"
  by (induction xs) (auto split: if_splits)

text \<open>
  C4. For every pool state, \<open>getCurrentConnection\<close> returns the first of the tracked
  entries (the non-nil pool entries of the tracked addresses, in the configured order)
  that reports connected-now. When none does, it sets the fallback to the last tracked
  entry (leaving it as it was when there is no entry at all) and returns the fallback.
  The call changes nothing of the pool but the fallback, and it has no access to the
  world: it dials nothing and waits for nothing.
\<close>

theorem getCurrentConnection_selection:
  assumes "getCurrentConnection w p = (r, p')"
  shows "(case find (ConnectedNow w) (tracked_entries p) of
            Some c \<Rightarrow> r = Some c
          | None \<Rightarrow>
              r = fallback p'
              \<and> fallback p' =
                  (if tracked_entries p = [] then fallback p
                   else Some (last (tracked_entries p))))
         \<and> p' = p\<lparr>fallback := fallback p'\<rparr>"
proof -
  obtain r0 fb where sc: "scanCurrent w (pool p) (addrs p) (fallback p) = (r0, fb)"
    by (cases "scanCurrent w (pool p) (addrs p) (fallback p)")
  with assms have r: "r = r0" and p': "p' = p\<lparr>fallback := fb\<rparr>"
    by (simp_all add: getCurrentConnection_def)
  from sc have fs: "fst (scanCurrent w (pool p) (addrs p) (fallback p)) = r0"
    and sn: "snd (scanCurrent w (pool p) (addrs p) (fallback p)) = fb"
    by simp_all
  from fs sn scanCurrent_result [of w "pool p" "addrs p" "fallback p"]
  have res: "r0 = (case find (ConnectedNow w) (tracked_entries p) of
                     Some c \<Rightarrow> Some c | None \<Rightarrow> fb)"
    by (auto simp: tracked_entries_def split: option.splits)
  from sn scanCurrent_fallback [of w "pool p" "addrs p" "fallback p"]
  have fbv: "fb = (let pre = takeWhile (\<lambda>c. \<not> ConnectedNow w c) (tracked_entries p)
                   in if pre = [] then fallback p else Some (last pre))"
    by (simp add: tracked_entries_def)
  show ?thesis
  proof (cases "find (ConnectedNow w) (tracked_entries p)")
    case None
    with fbv takeWhile_not_find_None [of "ConnectedNow w" "tracked_entries p"]
    have "fb = (if tracked_entries p = [] then fallback p
                else Some (last (tracked_entries p)))"
      by (simp add: Let_def)
    with None res r p' show ?thesis by simp
  next
    case (Some c)
    with res r p' show ?thesis by simp
  qed
qed

theorem getCurrentConnection_selection_witness:
  "getCurrentConnection world_AB pool_AB = (Some 0, pool_AB)
   \<and> getCurrentConnection world_AB_down pool_AB = (Some 1, pool_AB\<lparr>fallback := Some 1\<rparr>)
   \<and> tracked_entries pool_AB = [0, 1]"
  using getCurrentConnection_selection [of world_AB pool_AB "Some 0" pool_AB]
    getCurrentConnection_selection [of world_AB_down pool_AB "Some 1" "pool_AB\<lparr>fallback := Some 1\<rparr>"]
  by (simp add: getCurrentConnection_def world_AB_def world_AB_down_def pool_AB_def ConnectedNow_def
      tracked_entries_def map_filter_Cons map_filter_Nil)

subsection \<open>Close\<close>

text \<open>
  C10. \<open>Close\<close> is not idempotent: a \<open>Close\<close> that returned leaves the control channel
  closed, and every later \<open>Close\<close> of that pool, in whatever world and with whatever
  order of the map, panics on closing the closed channel.
\<close>

theorem Close_twice_panics:
  "Close ks p w = Inr (e, p', w') \<Longrightarrow>
     control_closed p' \<and> Close ks' p' w'' = Inl CloseOfClosedChannel"
  by (auto simp: Close_def Let_def split: if_splits prod.splits)

theorem Close_twice_panics_witness:
  "\<exists>e p' w'. Close [''A'', ''B''] pool_AB world_AB = Inr (e, p', w')
      \<and> Close [''A'', ''B''] p' w' = Inl CloseOfClosedChannel"
proof -
  have "\<not> control_closed pool_AB"
    by (simp add: pool_AB_def)
  then have "\<exists>r. Close [''A'', ''B''] pool_AB world_AB = Inr r"
    by (simp add: Close_def Let_def split: prod.splits)
  then obtain e p' w' where h: "Close [''A'', ''B''] pool_AB world_AB = Inr (e, p', w')"
    by (metis prod_cases3)
  from Close_twice_panics [OF h, of "[''A'', ''B'']" w'] h show ?thesis
    by blast
qed

lemma conn_Close_closeErr:
  "closeErr (heap (snd (conn_Close c w)) c') = closeErr (heap w c')"
  by (simp add: conn_Close_def)

lemma conn_Close_close_set: "snd (conn_Close c w) = close_set {c} w"
  by (simp add: conn_Close_def close_set_def closed_conn_def fun_eq_iff)

lemma close_set_close_set: "close_set S (close_set T w) = close_set (T \<union> S) w"
  by (auto simp: close_set_def closed_conn_def fun_eq_iff)

lemma close_set_empty: "close_set {} w = w"
  by (simp add: close_set_def)

lemma closeErr_close_set: "closeErr (heap (close_set S w) c) = closeErr (heap w c)"
  by (simp add: close_set_def closed_conn_def)

lemma first_close_error_close_set:
  "first_close_error (close_set S w) cs = first_close_error w cs"
  by (simp add: first_close_error_def closeErr_close_set split: option.splits)

lemma closeAll_world: "snd (closeAll cs err w) = close_set (set cs) w"
proof (induction cs arbitrary: err w)
  case Nil
  show ?case by (simp add: close_set_empty)
next
  case (Cons c cs)
  have "snd (closeAll (c # cs) err w) =
        snd (closeAll cs (if err = None then fst (conn_Close c w) else err) (snd (conn_Close c w)))"
    by (simp add: case_prod_beta)
  also have "\<dots> = close_set (set cs) (close_set {c} w)"
    by (simp add: Cons.IH conn_Close_close_set)
  finally show ?case
    by (simp add: close_set_close_set)
qed

lemma closeAll_error:
  "fst (closeAll cs err w) = (case err of Some e \<Rightarrow> Some e | None \<Rightarrow> first_close_error w cs)"
proof (induction cs arbitrary: err w)
  case Nil
  show ?case by (simp add: first_close_error_def split: option.splits)
next
  case (Cons c cs)
  have step: "fst (closeAll (c # cs) err w) =
        fst (closeAll cs (if err = None then closeErr (heap w c) else err) (close_set {c} w))"
    by (simp add: case_prod_beta conn_Close_close_set) (simp add: conn_Close_def)
  show ?case
    unfolding step Cons.IH
    by (auto simp: first_close_error_close_set split: option.splits)
       (auto simp: first_close_error_def split: option.splits)
qed


lemma set_map_filter: "set (List.map_filter f xs) = {y. \<exists>x\<in>set xs. f x = Some y}"
  by (induction xs) (auto simp: map_filter_Cons map_filter_Nil split: option.splits)

lemma range_order_entries: "range_order ks m \<Longrightarrow> set (List.map_filter m ks) = ran m"
  by (auto simp: set_map_filter range_order_def ran_def dom_def)

lemma first_close_error_None:
  "first_close_error w cs = None \<longleftrightarrow> (\<forall>c\<in>set cs. closeErr (heap w c) = None)"
  by (auto simp: first_close_error_def find_None_iff split: option.splits dest: find_Some_iff [THEN iffD1])

lemma Close_result:
  assumes "\<not> control_closed p"
  shows "Close ks p w =
     Inr (first_close_error w (List.map_filter (pool p) ks),
          p\<lparr>control_closed := True, state := connClosed\<rparr>,
          close_set (set (List.map_filter (pool p) ks) \<union> set_option (fallback p)) w)"
proof (cases "fallback p")
  case None
  with assms show ?thesis
    by (simp add: Close_def Let_def case_prod_beta closeAll_error closeAll_world)
next
  case (Some f)
  with assms show ?thesis
    by (simp add: Close_def Let_def case_prod_beta closeAll_error closeAll_world
        conn_Close_close_set close_set_close_set)
qed

lemma ClosedNow_close_set: "c \<in> S \<Longrightarrow> ClosedNow (close_set S w) c"
  by (simp add: ClosedNow_def close_set_def closed_conn_def)

text \<open>
  C5, as the code has it. On a pool whose control channel is still open, \<open>Close\<close>
  marks the state closed and the channel closed (which is what stops the maintenance
  task), and calls \<^verbatim>\<open>Close()\<close> on every connection of the pool map and on the fallback,
  whatever the earlier calls returned: afterwards all of them report closed-now. What
  it returns is the error of the first connection of the pool map, in the order of the
  visit, whose \<^verbatim>\<open>Close()\<close> returned one; it is nil exactly when no connection of the pool
  map returned an error. The error that closing the fallback returns is not part of the
  result.
\<close>

theorem Close_first_pool_error:
  assumes "\<not> control_closed p" and "range_order ks (pool p)"
  shows "Close ks p w =
           Inr (first_close_error w (List.map_filter (pool p) ks),
                p\<lparr>control_closed := True, state := connClosed\<rparr>,
                close_set (ran (pool p) \<union> set_option (fallback p)) w)
         \<and> (\<forall>c\<in>ran (pool p) \<union> set_option (fallback p).
               ClosedNow (close_set (ran (pool p) \<union> set_option (fallback p)) w) c)
         \<and> (first_close_error w (List.map_filter (pool p) ks) = None
              \<longleftrightarrow> (\<forall>c\<in>ran (pool p). closeErr (heap w c) = None))
         \<and> (\<forall>c e. find (\<lambda>c. closeErr (heap w c) \<noteq> None) (List.map_filter (pool p) ks) = Some c
                \<and> closeErr (heap w c) = Some e
              \<longrightarrow> first_close_error w (List.map_filter (pool p) ks) = Some e)"
proof (intro conjI)
  from assms(2) have cs: "set (List.map_filter (pool p) ks) = ran (pool p)"
    by (rule range_order_entries)
  show "Close ks p w =
           Inr (first_close_error w (List.map_filter (pool p) ks),
                p\<lparr>control_closed := True, state := connClosed\<rparr>,
                close_set (ran (pool p) \<union> set_option (fallback p)) w)"
    unfolding Close_result [OF assms(1)] cs ..
  show "\<forall>c\<in>ran (pool p) \<union> set_option (fallback p).
               ClosedNow (close_set (ran (pool p) \<union> set_option (fallback p)) w) c"
    by (simp add: ClosedNow_close_set)
  show "first_close_error w (List.map_filter (pool p) ks) = None
              \<longleftrightarrow> (\<forall>c\<in>ran (pool p). closeErr (heap w c) = None)"
    unfolding first_close_error_None cs ..
  show "\<forall>c e. find (\<lambda>c. closeErr (heap w c) \<noteq> None) (List.map_filter (pool p) ks) = Some c
                \<and> closeErr (heap w c) = Some e
              \<longrightarrow> first_close_error w (List.map_filter (pool p) ks) = Some e"
    by (simp add: first_close_error_def)
qed

theorem Close_first_pool_error_witness:
  "Close [''B'', ''A''] pool_redialed world_redialed =
     Inr (None, pool_redialed\<lparr>control_closed := True, state := connClosed\<rparr>,
          close_set ({1, 2} \<union> {0}) world_redialed)
   \<and> ClosedNow (close_set ({1, 2} \<union> {0}) world_redialed) 2"
proof -
  have a: "\<not> control_closed pool_redialed"
    by (simp add: pool_redialed_def)
  have b: "range_order [''B'', ''A''] (pool pool_redialed)"
    by (auto simp: range_order_def pool_redialed_def)
  have r: "ran (pool pool_redialed) = {1, 2}"
    by (simp add: pool_redialed_def ran_map_upd)
  have f: "set_option (fallback pool_redialed) = {0}"
    by (simp add: pool_redialed_def)
  have n: "first_close_error world_redialed (List.map_filter (pool pool_redialed) [''B'', ''A'']) = None"
    by (simp add: first_close_error_def pool_redialed_def world_redialed_def
        map_filter_Cons map_filter_Nil)
  from Close_first_pool_error [OF a b, of world_redialed]
  show ?thesis
    unfolding r f n by simp
qed

text \<open>
  C5, as the claim has it, fails: the claim returns nil only if every owned resource,
  the fallback included, closed without error. In \<open>pool_redialed\<close> the fallback is
  connection 0, which is not in the pool map and whose \<^verbatim>\<open>Close()\<close> returns an error;
  the connections of the pool map close without error, and \<open>Close\<close> returns nil.
\<close>

theorem Close_drops_fallback_error:
  "(\<exists>p' w'. Close [''A'', ''B''] pool_redialed world_redialed = Inr (None, p', w'))
   \<and> fallback pool_redialed = Some 0
   \<and> fst (conn_Close 0 world_redialed) = Some (ErrExternal ''close'')"
proof (intro conjI)
  have a: "\<not> control_closed pool_redialed"
    by (simp add: pool_redialed_def)
  have "first_close_error world_redialed (List.map_filter (pool pool_redialed) [''A'', ''B'']) = None"
    by (simp add: first_close_error_def pool_redialed_def world_redialed_def map_filter_Cons map_filter_Nil)
  with Close_result [OF a, of "[''A'', ''B'']" world_redialed]
  show "\<exists>p' w'. Close [''A'', ''B''] pool_redialed world_redialed = Inr (None, p', w')"
    by simp
  show "fallback pool_redialed = Some 0"
    by (simp add: pool_redialed_def)
  show "fst (conn_Close 0 world_redialed) = Some (ErrExternal ''close'')"
    by (simp add: world_redialed_def conn_Close_def)
qed

subsection \<open>Construction\<close>

lemma warmUp_loop_control_closed:
  "control_closed (fst (snd (snd (warmUp_loop net as alive errs p w)))) = control_closed p"
  by (induction as arbitrary: alive errs p w)
     (auto simp: Connect_def split: dial_answer.splits)

lemma ConnectWithOpts_valid_config:
  assumes "al \<noteq> []" and "0 < sint (CheckTimeout om)"
  shows "(\<exists>w'. ConnectWithOpts net ord al om w = Inr ((None, Some ErrNoConnection), w'))
       \<or> (\<exists>p w'. ConnectWithOpts net ord al om w = Inr ((Some p, None), w'))"
proof -
  let ?opts1 = "if sint (ClusterDiscoveryTime om) \<le> 0
                then om\<lparr>ClusterDiscoveryTime := 60 * Second\<rparr> else om"
  let ?p0 = "\<lparr>addrs = al, opts = ?opts1, state = connConnected,
              control_closed = False, pool = Map.empty, fallback = None\<rparr>"
  obtain alive errs p1 w1 where wu: "warmUp net ?p0 w = (alive, errs, p1, w1)"
    by (cases "warmUp net ?p0 w") auto
  have "control_closed p1 = control_closed ?p0"
    using warmUp_loop_control_closed [of net al False "[]" ?p0 w] wu
    by (simp add: warmUp_def)
  then have op: "\<not> control_closed p1"
    by simp
  show ?thesis
  proof (cases alive)
    case True
    with assms wu have "ConnectWithOpts net ord al om w = Inr ((Some p1, None), w1)"
      by (simp add: ConnectWithOpts_def Let_def)
    then show ?thesis by simp
  next
    case False
    with assms wu Close_result [OF op, of "ord (pool p1)" w1]
    have "\<exists>w'. ConnectWithOpts net ord al om w = Inr ((None, Some ErrNoConnection), w')"
      by (simp add: ConnectWithOpts_def Let_def)
    then show ?thesis by simp
  qed
qed

text \<open>
  C7. Construction fails with a configuration error exactly when the address list is
  empty or the check timeout is not positive. An empty list gives \<open>ErrEmptyAddrs\<close>
  whatever the timeout is (it is checked first); a non-empty list with a timeout
  \<open>\<le> 0\<close> gives \<open>ErrWrongCheckTimeout\<close>. In both cases no pool is returned and the world
  is returned as it was: nothing was dialed and no connection exists that did not
  before. With a non-empty list and a positive timeout the result is either
  \<open>ErrNoConnection\<close> or a pool, never a configuration error.
\<close>

theorem ConnectWithOpts_config_error:
  "(al = [] \<longrightarrow>
      ConnectWithOpts net ord al om w = Inr ((None, Some ErrEmptyAddrs), w))
   \<and> (al \<noteq> [] \<and> sint (CheckTimeout om) \<le> 0 \<longrightarrow>
      ConnectWithOpts net ord al om w = Inr ((None, Some ErrWrongCheckTimeout), w))
   \<and> (al \<noteq> [] \<and> 0 < sint (CheckTimeout om) \<longrightarrow>
      (\<exists>w'. ConnectWithOpts net ord al om w = Inr ((None, Some ErrNoConnection), w'))
      \<or> (\<exists>p w'. ConnectWithOpts net ord al om w = Inr ((Some p, None), w')))
   \<and> is_ConfigError ErrEmptyAddrs \<and> is_ConfigError ErrWrongCheckTimeout
   \<and> \<not> is_ConfigError ErrNoConnection"
proof (intro conjI impI)
  assume "al = []"
  then show "ConnectWithOpts net ord al om w = Inr ((None, Some ErrEmptyAddrs), w)"
    by (simp add: ConnectWithOpts_def)
next
  assume "al \<noteq> [] \<and> sint (CheckTimeout om) \<le> 0"
  then show "ConnectWithOpts net ord al om w = Inr ((None, Some ErrWrongCheckTimeout), w)"
    by (simp add: ConnectWithOpts_def)
next
  assume "al \<noteq> [] \<and> 0 < sint (CheckTimeout om)"
  then show "(\<exists>w'. ConnectWithOpts net ord al om w = Inr ((None, Some ErrNoConnection), w'))
      \<or> (\<exists>p w'. ConnectWithOpts net ord al om w = Inr ((Some p, None), w'))"
    using ConnectWithOpts_valid_config [where al = al and om = om] by simp
qed (simp_all add: is_ConfigError_def)

theorem ConnectWithOpts_config_error_witness:
  "ConnectWithOpts net_up (key_order []) [] sample_opts empty_world =
     Inr ((None, Some ErrEmptyAddrs), empty_world)
   \<and> ConnectWithOpts net_up (key_order []) [] (sample_opts\<lparr>CheckTimeout := 0\<rparr>) empty_world =
     Inr ((None, Some ErrEmptyAddrs), empty_world)
   \<and> ConnectWithOpts net_up (key_order [''A'']) [''A''] (sample_opts\<lparr>CheckTimeout := 0\<rparr>) empty_world =
     Inr ((None, Some ErrWrongCheckTimeout), empty_world)
   \<and> ConnectWithOpts net_up (key_order [''A'']) [''A''] (sample_opts\<lparr>CheckTimeout := - 1\<rparr>) empty_world =
     Inr ((None, Some ErrWrongCheckTimeout), empty_world)
   \<and> (\<exists>p w'. ConnectWithOpts net_up (key_order [''A'', ''B'']) [''A'', ''B''] sample_opts empty_world =
        Inr ((Some p, None), w'))"
proof -
  have up: "ConnectWithOpts net_up (key_order [''A'', ''B'']) [''A'', ''B''] sample_opts empty_world =
        Inr ((Some pool_AB, None), world_AB)"
    by (simp add: ConnectWithOpts_def warmUp_def Connect_def net_up_def sample_opts_def
        empty_world_def Second_def ConnectedNow_def pool_AB_def world_AB_def Let_def)
  show ?thesis
    using ConnectWithOpts_config_error [where al = "[]" and net = net_up and ord = "key_order []"
        and om = sample_opts and w = empty_world]
      ConnectWithOpts_config_error [where al = "[''A'']" and net = net_up and ord = "key_order [''A'']"
        and om = "sample_opts\<lparr>CheckTimeout := 0\<rparr>" and w = empty_world]
      ConnectWithOpts_config_error [where al = "[''A'']" and net = net_up and ord = "key_order [''A'']"
        and om = "sample_opts\<lparr>CheckTimeout := - 1\<rparr>" and w = empty_world]
      ConnectWithOpts_config_error [where al = "[]" and net = net_up and ord = "key_order []"
        and om = "sample_opts\<lparr>CheckTimeout := 0\<rparr>" and w = empty_world]
      up
    by (simp add: sample_opts_def)
qed


subsection \<open>Do\<close>

text \<open>
  What \<open>ConnectionMulti_Do\<close> does with every request. A request that is not bound goes
  to the selected connection. A bound request whose \<^verbatim>\<open>Conn()\<close> is nil panics on
  \<^verbatim>\<open>Addr()\<close>. A request bound to a connection \<open>x\<close> is failed with the binding error when
  the pool map has no entry under the address of \<open>x\<close>, and is handed to \<open>x\<close> itself when
  it has one, whichever connection that entry is.
\<close>

theorem ConnectionMulti_Do_routing:
  "(req_conn req = None \<longrightarrow>
      ConnectionMulti_Do req p w =
        Inr (DoOn (fst (getCurrentConnection w p)) req, snd (getCurrentConnection w p)))
   \<and> (req_conn req = Some None \<longrightarrow> ConnectionMulti_Do req p w = Inl NilDereference)
   \<and> (\<forall>x. req_conn req = Some (Some x) \<longrightarrow>
        ConnectionMulti_Do req p w =
          Inr (if pool p (Addr w x) = None then ErrorFuture ErrNotBelong
               else DoOn (Some x) req, p))"
  by (auto simp: ConnectionMulti_Do_def getConnectionFromPool_def split: option.splits prod.splits)

text \<open>
  C1. The claim routes a bound request only when the very connection it is bound to is
  tracked by the pool, and fails it otherwise, also when the connection shares its
  address with a tracked one. The code looks up the address of the bound connection
  and discards the entry found (\<open>ConnectionMulti_Do_routing\<close>). In \<open>pool_redialed\<close> the
  pool tracks connection 2 for A and connection 1 for B; a request bound to connection
  0, the former connection to A, is not failed but handed to connection 0.
\<close>

theorem ConnectionMulti_Do_routes_untracked_connection:
  "ConnectionMulti_Do \<lparr>req_code = 1, req_conn = Some (Some 0)\<rparr> pool_redialed world_redialed =
     Inr (DoOn (Some 0) \<lparr>req_code = 1, req_conn = Some (Some 0)\<rparr>, pool_redialed)
   \<and> touches_connection (DoOn (Some 0) \<lparr>req_code = 1, req_conn = Some (Some 0)\<rparr>)
   \<and> pool pool_redialed ''A'' = Some 2 \<and> pool pool_redialed ''B'' = Some 1
   \<and> ran (pool pool_redialed) = {1, 2}
   \<and> Addr world_redialed 0 = ''A''"
  by (simp add: ConnectionMulti_Do_def getConnectionFromPool_def Addr_def pool_redialed_def
      world_redialed_def ran_map_upd)

text \<open>
  C6. The claim has construction leave no connection open when no address yields a
  live connection. The code closes what the pool map and the fallback hold at the end
  of warm-up. For the address list A, A, A, with dials that return connection objects
  whose transport is not up, warm-up stores connection 0 as fallback and under A,
  then overwrites the entry of A with connection 1 and again with connection 2.
  Construction fails with \<open>ErrNoConnection\<close> after closing connections 2 and 0;
  connection 1 is never closed.
\<close>

theorem ConnectWithOpts_leaks_overwritten_connection:
  "\<exists>w'. ConnectWithOpts net_pending (key_order [''A'']) [''A'', ''A'', ''A''] sample_opts empty_world =
          Inr ((None, Some ErrNoConnection), w')
        \<and> dial_log w' = [(''A'', Some 0), (''A'', Some 1), (''A'', Some 2)]
        \<and> ClosedNow w' 0 \<and> \<not> ClosedNow w' 1 \<and> ClosedNow w' 2"
  by (simp add: ConnectWithOpts_def warmUp_def Connect_def net_pending_def sample_opts_def
      empty_world_def Second_def ConnectedNow_def ClosedNow_def Close_def conn_Close_def
      map_filter_Cons map_filter_Nil key_order_def Let_def)

subsection \<open>The discovery tick\<close>

lemma indexOf_from_neg: "0 \<le> i \<Longrightarrow> indexOf_from i v xs < 0 \<longleftrightarrow> v \<notin> set xs"
  by (induction xs arbitrary: i) auto

lemma indexOf_neg: "indexOf v xs < 0 \<longleftrightarrow> v \<notin> set xs"
  by (simp add: indexOf_def indexOf_from_neg)

lemma Connect_cases:
  obtains (refused) e where "net (length (dial_log w)) a = Refused e"
      "Connect net a w = (None, Some e, w\<lparr>dial_log := dial_log w @ [(a, None)]\<rparr>)"
  | (accepted) live cerr where "net (length (dial_log w)) a = Accepted live cerr"
      "Connect net a w = (Some (nextRef w), None,
           w\<lparr>heap := (heap w)(nextRef w :=
                 \<lparr>conn_addr = a, connectedNow = live, closedNow = False, closeErr = cerr\<rparr>),
             nextRef := Suc (nextRef w),
             dial_log := dial_log w @ [(a, Some (nextRef w))]\<rparr>)"
  by (cases "net (length (dial_log w)) a") (simp_all add: Connect_def)

lemma fillPool_frame:
  "fillPool net new p w = (p1, w1) \<Longrightarrow>
     p1 = p\<lparr>pool := pool p1\<rparr> \<and> nextRef w \<le> nextRef w1
     \<and> (\<forall>c. c < nextRef w \<longrightarrow> heap w1 c = heap w c)"
proof (induction new arbitrary: p w)
  case Nil
  then show ?case by simp
next
  case (Cons v rest)
  show ?case
  proof (cases "indexOf v (addrs p) < 0")
    case False
    with Cons.prems have "fillPool net rest p w = (p1, w1)" by simp
    from Cons.IH [OF this] show ?thesis .
  next
    case True
    show ?thesis
    proof (cases rule: Connect_cases [of net w v])
      case (refused e)
      with True Cons.prems
      have "fillPool net rest p (w\<lparr>dial_log := dial_log w @ [(v, None)]\<rparr>) = (p1, w1)"
        by simp
      from Cons.IH [OF this] show ?thesis by simp
    next
      case (accepted live cerr)
      let ?w = "w\<lparr>heap := (heap w)(nextRef w :=
                 \<lparr>conn_addr = v, connectedNow = live, closedNow = False, closeErr = cerr\<rparr>),
             nextRef := Suc (nextRef w),
             dial_log := dial_log w @ [(v, Some (nextRef w))]\<rparr>"
      from accepted True Cons.prems
      have "fillPool net rest (setConnectionToPool v (nextRef w) p) ?w = (p1, w1)"
        by simp
      from Cons.IH [OF this] show ?thesis
        by (auto simp: setConnectionToPool_def)
    qed
  qed
qed


lemma fillPool_dials:
  "fillPool net new p w = (p1, w1) \<Longrightarrow>
     \<exists>nd. dial_log w1 = dial_log w @ nd
        \<and> map fst nd = filter (\<lambda>v. v \<notin> set (addrs p)) new
        \<and> (\<forall>a. pool p1 a = (case last_dialed nd a of Some c \<Rightarrow> Some c | None \<Rightarrow> pool p a))
        \<and> (\<forall>a c. (a, Some c) \<in> set nd \<longrightarrow>
              nextRef w \<le> c \<and> c < nextRef w1 \<and> Addr w1 c = a \<and> \<not> ClosedNow w1 c)"
proof (induction new arbitrary: p w)
  case Nil
  then show ?case by simp
next
  case (Cons v rest)
  show ?case
  proof (cases "indexOf v (addrs p) < 0")
    case False
    with Cons.prems have "fillPool net rest p w = (p1, w1)" by simp
    from Cons.IH [OF this] False show ?thesis
      by (simp add: indexOf_neg)
  next
    case True
    then have notin: "v \<notin> set (addrs p)"
      by (simp add: indexOf_neg)
    show ?thesis
    proof (cases rule: Connect_cases [of net w v])
      case (refused e)
      let ?w = "w\<lparr>dial_log := dial_log w @ [(v, None)]\<rparr>"
      from refused True Cons.prems have run: "fillPool net rest p ?w = (p1, w1)"
        by simp
      from Cons.IH [OF run] obtain nd where nd:
        "dial_log w1 = dial_log ?w @ nd"
        "map fst nd = filter (\<lambda>v. v \<notin> set (addrs p)) rest"
        "\<forall>a. pool p1 a = (case last_dialed nd a of Some c \<Rightarrow> Some c | None \<Rightarrow> pool p a)"
        "\<forall>a c. (a, Some c) \<in> set nd \<longrightarrow>
              nextRef ?w \<le> c \<and> c < nextRef w1 \<and> Addr w1 c = a \<and> \<not> ClosedNow w1 c"
        by blast
      let ?nd = "(v, None) # nd"
      have "dial_log w1 = dial_log w @ ?nd"
        using nd(1) by simp
      moreover have "map fst ?nd = filter (\<lambda>v. v \<notin> set (addrs p)) (v # rest)"
        using nd(2) notin by simp
      moreover have "\<forall>a. pool p1 a = (case last_dialed ?nd a of Some c \<Rightarrow> Some c | None \<Rightarrow> pool p a)"
        using nd(3) by (simp split: option.splits)
      moreover have "\<forall>a c. (a, Some c) \<in> set ?nd \<longrightarrow>
              nextRef w \<le> c \<and> c < nextRef w1 \<and> Addr w1 c = a \<and> \<not> ClosedNow w1 c"
        using nd(4) by simp
      ultimately show ?thesis by blast
    next
      case (accepted live cerr)
      let ?c = "nextRef w"
      let ?w = "w\<lparr>heap := (heap w)(nextRef w :=
                 \<lparr>conn_addr = v, connectedNow = live, closedNow = False, closeErr = cerr\<rparr>),
             nextRef := Suc (nextRef w),
             dial_log := dial_log w @ [(v, Some (nextRef w))]\<rparr>"
      let ?p = "setConnectionToPool v ?c p"
      from accepted True Cons.prems have run: "fillPool net rest ?p ?w = (p1, w1)"
        by simp
      from fillPool_frame [OF run]
      have fr: "nextRef ?w \<le> nextRef w1" "heap w1 ?c = heap ?w ?c"
        by simp_all
      from Cons.IH [OF run] obtain nd where nd:
        "dial_log w1 = dial_log ?w @ nd"
        "map fst nd = filter (\<lambda>v. v \<notin> set (addrs ?p)) rest"
        "\<forall>a. pool p1 a = (case last_dialed nd a of Some c \<Rightarrow> Some c | None \<Rightarrow> pool ?p a)"
        "\<forall>a c. (a, Some c) \<in> set nd \<longrightarrow>
              nextRef ?w \<le> c \<and> c < nextRef w1 \<and> Addr w1 c = a \<and> \<not> ClosedNow w1 c"
        by blast
      let ?nd = "(v, Some ?c) # nd"
      have "dial_log w1 = dial_log w @ ?nd"
        using nd(1) by simp
      moreover have "map fst ?nd = filter (\<lambda>v. v \<notin> set (addrs p)) (v # rest)"
        using nd(2) notin by (simp add: setConnectionToPool_def)
      moreover have "\<forall>a. pool p1 a = (case last_dialed ?nd a of Some c \<Rightarrow> Some c | None \<Rightarrow> pool p a)"
        using nd(3) by (simp add: setConnectionToPool_def split: option.splits)
      moreover have "\<forall>a c. (a, Some c) \<in> set ?nd \<longrightarrow>
              nextRef w \<le> c \<and> c < nextRef w1 \<and> Addr w1 c = a \<and> \<not> ClosedNow w1 c"
      proof (intro allI impI)
        fix a c
        assume "(a, Some c) \<in> set ?nd"
        then consider "a = v" "c = ?c" | "(a, Some c) \<in> set nd"
          by auto
        then show "nextRef w \<le> c \<and> c < nextRef w1 \<and> Addr w1 c = a \<and> \<not> ClosedNow w1 c"
        proof cases
          case 1
          with fr show ?thesis
            by (simp add: Addr_def ClosedNow_def)
        next
          case 2
          with nd(4) have "nextRef ?w \<le> c \<and> c < nextRef w1 \<and> Addr w1 c = a \<and> \<not> ClosedNow w1 c"
            by blast
          then show ?thesis by simp
        qed
      qed
      ultimately show ?thesis by blast
    qed
  qed
qed

lemma clearPool_result:
  "clearPool new old p w =
     (p\<lparr>pool := (\<lambda>a. if a \<in> set old \<and> a \<notin> set new then None else pool p a)\<rparr>,
      close_set {c. \<exists>a. a \<in> set old \<and> a \<notin> set new \<and> pool p a = Some c} w)"
proof (induction old arbitrary: p w)
  case Nil
  show ?case by (simp add: close_set_empty)
next
  case (Cons v rest)
  show ?case
  proof (cases "v \<in> set new")
    case True
    then have eq: "{c. \<exists>a. a \<in> set (v # rest) \<and> a \<notin> set new \<and> pool p a = Some c}
        = {c. \<exists>a. a \<in> set rest \<and> a \<notin> set new \<and> pool p a = Some c}"
      by auto
    have feq: "(\<lambda>a. if a \<in> set (v # rest) \<and> a \<notin> set new then None else pool p a)
        = (\<lambda>a. if a \<in> set rest \<and> a \<notin> set new then None else pool p a)"
      using True by auto
    from True show ?thesis
      unfolding eq feq by (simp add: indexOf_neg Cons.IH)
  next
    case False
    let ?S0 = "set_option (pool p v)"
    let ?p = "deleteConnectionFromPool v p"
    let ?S1 = "{c. \<exists>a. a \<in> set rest \<and> a \<notin> set new \<and> pool ?p a = Some c}"
    have w1: "(case getConnectionFromPool v p of Some con \<Rightarrow> snd (conn_Close con w) | None \<Rightarrow> w)
        = close_set ?S0 w"
      by (cases "pool p v") (simp_all add: getConnectionFromPool_def conn_Close_close_set close_set_empty)
    have step: "clearPool new (v # rest) p w = clearPool new rest ?p (close_set ?S0 w)"
      using False by (simp add: indexOf_neg w1 Let_def)
    have sets: "?S0 \<union> ?S1 = {c. \<exists>a. a \<in> set (v # rest) \<and> a \<notin> set new \<and> pool p a = Some c}"
      using False by (auto simp: deleteConnectionFromPool_def split: if_splits)
    have feq: "(\<lambda>a. if a \<in> set rest \<and> a \<notin> set new then None else pool ?p a)
        = (\<lambda>a. if a \<in> set (v # rest) \<and> a \<notin> set new then None else pool p a)"
      using False by (auto simp: deleteConnectionFromPool_def fun_eq_iff)
    have rec: "?p\<lparr>pool := (\<lambda>a. if a \<in> set rest \<and> a \<notin> set new then None else pool ?p a)\<rparr>
        = p\<lparr>pool := (\<lambda>a. if a \<in> set (v # rest) \<and> a \<notin> set new then None else pool p a)\<rparr>"
      unfolding feq by (simp add: deleteConnectionFromPool_def)
    show ?thesis
      unfolding step Cons.IH rec close_set_close_set sets ..
  qed
qed


lemma heap_close_set_other: "c \<notin> S \<Longrightarrow> heap (close_set S w) c = heap w c"
  by (simp add: close_set_def)

lemma last_dialed_None: "a \<notin> fst ` set nd \<Longrightarrow> last_dialed nd a = None"
  by (induction nd) (auto split: option.splits)

lemma getCurrentConnection_frame:
  "getCurrentConnection w p = (cur, p0) \<Longrightarrow> p0 = p\<lparr>fallback := fallback p0\<rparr>"
  by (auto simp: getCurrentConnection_def split: prod.splits)

lemma refreshTick_update:
  assumes live: "getState p \<noteq> connClosed" "NodesGetFunctionName (opts p) \<noteq> []"
    and wf: "pool_wf w p"
    and new: "new \<noteq> []"
    and run: "refreshTick net (None, new # others) p w = (p', w')"
  shows "addrs p' = new
     \<and> map fst (new_dials w w') = filter (\<lambda>v. v \<notin> set (addrs p)) new
     \<and> (\<forall>a c. (a, Some c) \<in> set (new_dials w w') \<longrightarrow>
           nextRef w \<le> c \<and> c < nextRef w' \<and> Addr w' c = a \<and> \<not> ClosedNow w' c)
     \<and> (\<forall>a. a \<in> set new \<and> a \<notin> set (addrs p) \<longrightarrow>
           pool p' a = (case last_dialed (new_dials w w') a of
                          Some c \<Rightarrow> Some c | None \<Rightarrow> pool p a))
     \<and> (\<forall>a. a \<in> set (addrs p) \<and> a \<notin> set new \<longrightarrow>
           pool p' a = None \<and> (\<forall>c. pool p a = Some c \<longrightarrow> ClosedNow w' c))
     \<and> (\<forall>a. a \<in> set (addrs p) \<and> a \<in> set new \<longrightarrow>
           pool p' a = pool p a \<and> (\<forall>c. pool p a = Some c \<longrightarrow> heap w' c = heap w c))
     \<and> (\<forall>a. a \<notin> set (addrs p) \<and> a \<notin> set new \<longrightarrow> pool p' a = pool p a)"
proof -
  obtain cur p0 where sel: "getCurrentConnection w p = (cur, p0)"
    by (cases "getCurrentConnection w p")
  from getCurrentConnection_frame [OF sel]
  have p0: "addrs p0 = addrs p" "pool p0 = pool p"
    by (metis connectionMulti.select_convs(1) connectionMulti.surjective connectionMulti.update_convs(6),
        metis connectionMulti.select_convs(5) connectionMulti.surjective connectionMulti.update_convs(6))
  obtain p1 w1 where fill: "fillPool net new p0 w = (p1, w1)"
    by (cases "fillPool net new p0 w")
  from fillPool_frame [OF fill]
  have fr: "p1 = p0\<lparr>pool := pool p1\<rparr>" "nextRef w \<le> nextRef w1"
    "\<forall>c. c < nextRef w \<longrightarrow> heap w1 c = heap w c"
    by blast+
  from fr(1) p0 have p1: "addrs p1 = addrs p"
    by (metis connectionMulti.select_convs(1) connectionMulti.surjective connectionMulti.update_convs(5))
  let ?S = "{c. \<exists>a. a \<in> set (addrs p) \<and> a \<notin> set new \<and> pool p1 a = Some c}"
  from live new run sel fill p1
  have res: "p' = p1\<lparr>pool := (\<lambda>a. if a \<in> set (addrs p) \<and> a \<notin> set new then None else pool p1 a),
                     addrs := new\<rparr>"
    "w' = close_set ?S w1"
    by (simp_all add: refreshTick_def clearPool_result)
  have "\<exists>nd. dial_log w1 = dial_log w @ nd
        \<and> map fst nd = filter (\<lambda>v. v \<notin> set (addrs p)) new
        \<and> (\<forall>a. pool p1 a = (case last_dialed nd a of Some c \<Rightarrow> Some c | None \<Rightarrow> pool p a))
        \<and> (\<forall>a c. (a, Some c) \<in> set nd \<longrightarrow>
              nextRef w \<le> c \<and> c < nextRef w1 \<and> Addr w1 c = a \<and> \<not> ClosedNow w1 c)"
    using fillPool_dials [OF fill] unfolding p0 .
  then obtain nd where nd:
    "dial_log w1 = dial_log w @ nd"
    "map fst nd = filter (\<lambda>v. v \<notin> set (addrs p)) new"
    "\<forall>a. pool p1 a = (case last_dialed nd a of Some c \<Rightarrow> Some c | None \<Rightarrow> pool p a)"
    "\<forall>a c. (a, Some c) \<in> set nd \<longrightarrow>
        nextRef w \<le> c \<and> c < nextRef w1 \<and> Addr w1 c = a \<and> \<not> ClosedNow w1 c"
    by blast
  have keys: "fst ` set nd = {v \<in> set new. v \<notin> set (addrs p)}"
    using arg_cong [OF nd(2), of set] by simp
  from res(2) nd(1) have log: "new_dials w w' = nd"
    by (simp add: new_dials_def close_set_def)
  have old_kept: "pool p1 a = pool p a" if "a \<in> set (addrs p)" for a
  proof -
    from that have "a \<notin> fst ` set nd"
      by (simp add: keys)
    then show ?thesis
      using nd(3) by (simp add: last_dialed_None)
  qed
  have S_old: "c < nextRef w \<and> (\<exists>a. a \<in> set (addrs p) \<and> a \<notin> set new \<and> pool p a = Some c)"
    if "c \<in> ?S" for c
  proof -
    from that obtain a where a: "a \<in> set (addrs p)" "a \<notin> set new" "pool p1 a = Some c"
      by blast
    with old_kept have "pool p a = Some c" by simp
    with wf a show ?thesis
      by (auto simp: pool_wf_def)
  qed
  have nextRef': "nextRef w' = nextRef w1"
    using res(2) by (simp add: close_set_def)
  have c1: "addrs p' = new"
    using res(1) by simp
  have c2: "map fst (new_dials w w') = filter (\<lambda>v. v \<notin> set (addrs p)) new"
    using log nd(2) by simp
  have c3: "\<forall>a c. (a, Some c) \<in> set (new_dials w w') \<longrightarrow>
           nextRef w \<le> c \<and> c < nextRef w' \<and> Addr w' c = a \<and> \<not> ClosedNow w' c"
  proof (intro allI impI)
    fix a c
    assume "(a, Some c) \<in> set (new_dials w w')"
    with log nd(4) have f: "nextRef w \<le> c" "c < nextRef w1" "Addr w1 c = a" "\<not> ClosedNow w1 c"
      by blast+
    from f(1) S_old [of c] have "c \<notin> ?S"
      by auto
    then have "heap w' c = heap w1 c"
      unfolding res(2) by (rule heap_close_set_other)
    with f nextRef' show "nextRef w \<le> c \<and> c < nextRef w' \<and> Addr w' c = a \<and> \<not> ClosedNow w' c"
      by (simp add: Addr_def ClosedNow_def)
  qed
  have c4: "\<forall>a. a \<in> set new \<and> a \<notin> set (addrs p) \<longrightarrow>
           pool p' a = (case last_dialed (new_dials w w') a of
                          Some c \<Rightarrow> Some c | None \<Rightarrow> pool p a)"
    using res(1) nd(3) log by simp
  have c5: "\<forall>a. a \<in> set (addrs p) \<and> a \<notin> set new \<longrightarrow>
           pool p' a = None \<and> (\<forall>c. pool p a = Some c \<longrightarrow> ClosedNow w' c)"
  proof (intro allI impI conjI)
    fix a
    assume a: "a \<in> set (addrs p) \<and> a \<notin> set new"
    then show "pool p' a = None"
      using res(1) by simp
    fix c
    assume "pool p a = Some c"
    with a old_kept [of a] have "c \<in> ?S"
      by auto
    then show "ClosedNow w' c"
      unfolding res(2) by (rule ClosedNow_close_set)
  qed
  have c6: "\<forall>a. a \<in> set (addrs p) \<and> a \<in> set new \<longrightarrow>
           pool p' a = pool p a \<and> (\<forall>c. pool p a = Some c \<longrightarrow> heap w' c = heap w c)"
  proof (intro allI impI conjI)
    fix a
    assume a: "a \<in> set (addrs p) \<and> a \<in> set new"
    then show "pool p' a = pool p a"
      using res(1) old_kept [of a] by simp
    fix c
    assume c: "pool p a = Some c"
    with wf have cw: "c < nextRef w" "Addr w c = a"
      by (auto simp: pool_wf_def)
    have "c \<notin> ?S"
    proof
      assume "c \<in> ?S"
      from S_old [OF this] obtain b where b: "b \<in> set (addrs p)" "b \<notin> set new" "pool p b = Some c"
        by blast
      with wf have "Addr w c = b"
        by (auto simp: pool_wf_def)
      with cw(2) a b(2) show False by simp
    qed
    then have "heap w' c = heap w1 c"
      unfolding res(2) by (rule heap_close_set_other)
    with fr(3) cw(1) show "heap w' c = heap w c"
      by simp
  qed
  have c7: "\<forall>a. a \<notin> set (addrs p) \<and> a \<notin> set new \<longrightarrow> pool p' a = pool p a"
  proof (intro allI impI)
    fix a
    assume a: "a \<notin> set (addrs p) \<and> a \<notin> set new"
    then have "a \<notin> fst ` set nd"
      by (simp add: keys)
    with nd(3) have "pool p1 a = pool p a"
      by (simp add: last_dialed_None)
    with a res(1) show "pool p' a = pool p a"
      by simp
  qed
  from c1 c2 c3 c4 c5 c6 c7 show ?thesis
    by (intro conjI)
qed

lemma refreshTick_no_update:
  assumes "answer = (Some e, r) \<or> answer = (None, []) \<or> answer = (None, [] # others)"
  shows "addrs (fst (refreshTick net answer p w)) = addrs p
       \<and> pool (fst (refreshTick net answer p w)) = pool p
       \<and> snd (refreshTick net answer p w) = w"
proof -
  obtain cur p0 where sel: "getCurrentConnection w p = (cur, p0)"
    by (cases "getCurrentConnection w p")
  from getCurrentConnection_frame [OF sel]
  have p0: "addrs p0 = addrs p" "pool p0 = pool p"
    by (metis connectionMulti.select_convs(1) connectionMulti.surjective connectionMulti.update_convs(6),
        metis connectionMulti.select_convs(5) connectionMulti.surjective connectionMulti.update_convs(6))
  from assms sel p0 show ?thesis
    by (auto simp: refreshTick_def)
qed


text \<open>
  C3, as the code has it. Take a pool that is not closed, has a discovery function
  configured and whose map is keyed by address (\<open>pool_wf\<close>), and a tick whose call
  succeeded with a result whose first element \<open>new\<close> is a non-empty list of addresses.
  After the tick the tracked list is \<open>new\<close>. Exactly the addresses of \<open>new\<close> that were
  not tracked are dialed, in order and once per occurrence; each connection so returned
  is new, carries the address dialed and is not closed, and the pool entry of such an
  address is the connection its last successful dial returned (the entry is as before
  when no dial of it succeeded). An address that was tracked and is not in \<open>new\<close> has no
  pool entry afterwards and its former connection is closed. An address that was tracked
  and is in \<open>new\<close> keeps its pool entry, and that connection object is untouched. Every
  other result (an error, an empty result, a result whose first element is the empty
  list) leaves the tracked list, the pool map and the world as they were.
\<close>

theorem refreshTick_reconciles:
  "(getState p \<noteq> connClosed \<and> NodesGetFunctionName (opts p) \<noteq> [] \<and> pool_wf w p
      \<and> new \<noteq> [] \<and> refreshTick net (None, new # others) p w = (p', w') \<longrightarrow>
      addrs p' = new
      \<and> map fst (new_dials w w') = filter (\<lambda>v. v \<notin> set (addrs p)) new
      \<and> (\<forall>a c. (a, Some c) \<in> set (new_dials w w') \<longrightarrow>
            nextRef w \<le> c \<and> c < nextRef w' \<and> Addr w' c = a \<and> \<not> ClosedNow w' c)
      \<and> (\<forall>a. a \<in> set new \<and> a \<notin> set (addrs p) \<longrightarrow>
            pool p' a = (case last_dialed (new_dials w w') a of
                           Some c \<Rightarrow> Some c | None \<Rightarrow> pool p a))
      \<and> (\<forall>a. a \<in> set (addrs p) \<and> a \<notin> set new \<longrightarrow>
            pool p' a = None \<and> (\<forall>c. pool p a = Some c \<longrightarrow> ClosedNow w' c))
      \<and> (\<forall>a. a \<in> set (addrs p) \<and> a \<in> set new \<longrightarrow>
            pool p' a = pool p a \<and> (\<forall>c. pool p a = Some c \<longrightarrow> heap w' c = heap w c))
      \<and> (\<forall>a. a \<notin> set (addrs p) \<and> a \<notin> set new \<longrightarrow> pool p' a = pool p a))
   \<and> (answer = (Some e, r) \<or> answer = (None, []) \<or> answer = (None, [] # others) \<longrightarrow>
      addrs (fst (refreshTick net answer p w)) = addrs p
      \<and> pool (fst (refreshTick net answer p w)) = pool p
      \<and> snd (refreshTick net answer p w) = w)"
proof (rule conjI; rule impI)
  assume h: "getState p \<noteq> connClosed \<and> NodesGetFunctionName (opts p) \<noteq> [] \<and> pool_wf w p
      \<and> new \<noteq> [] \<and> refreshTick net (None, new # others) p w = (p', w')"
  then have h1: "getState p \<noteq> connClosed" and h2: "NodesGetFunctionName (opts p) \<noteq> []"
    and h3: "pool_wf w p" and h4: "new \<noteq> []"
    and h5: "refreshTick net (None, new # others) p w = (p', w')"
    by blast+
  from refreshTick_update [OF h1 h2 h3 h4 h5]
  show "addrs p' = new
      \<and> map fst (new_dials w w') = filter (\<lambda>v. v \<notin> set (addrs p)) new
      \<and> (\<forall>a c. (a, Some c) \<in> set (new_dials w w') \<longrightarrow>
            nextRef w \<le> c \<and> c < nextRef w' \<and> Addr w' c = a \<and> \<not> ClosedNow w' c)
      \<and> (\<forall>a. a \<in> set new \<and> a \<notin> set (addrs p) \<longrightarrow>
            pool p' a = (case last_dialed (new_dials w w') a of
                           Some c \<Rightarrow> Some c | None \<Rightarrow> pool p a))
      \<and> (\<forall>a. a \<in> set (addrs p) \<and> a \<notin> set new \<longrightarrow>
            pool p' a = None \<and> (\<forall>c. pool p a = Some c \<longrightarrow> ClosedNow w' c))
      \<and> (\<forall>a. a \<in> set (addrs p) \<and> a \<in> set new \<longrightarrow>
            pool p' a = pool p a \<and> (\<forall>c. pool p a = Some c \<longrightarrow> heap w' c = heap w c))
      \<and> (\<forall>a. a \<notin> set (addrs p) \<and> a \<notin> set new \<longrightarrow> pool p' a = pool p a)" .
next
  assume "answer = (Some e, r) \<or> answer = (None, []) \<or> answer = (None, [] # others)"
  then show "addrs (fst (refreshTick net answer p w)) = addrs p
      \<and> pool (fst (refreshTick net answer p w)) = pool p
      \<and> snd (refreshTick net answer p w) = w"
    by (rule refreshTick_no_update)
qed

lemma pool_wf_AB: "pool_wf world_AB pool_AB"
  by (auto simp: pool_wf_def pool_AB_def world_AB_def Addr_def split: if_splits)

text \<open>
  C3, as the claim has it, fails: whenever the first element of the result is a list of
  address strings, the claim makes it the tracked list. The empty list is such a list;
  the code guards the update with \<^verbatim>\<open>len(resp[0]) > 0\<close>, and the tracked list stays as it
  was.
\<close>

theorem refreshTick_ignores_empty_list:
  "hd [[]] = ([] :: string list)
   \<and> addrs (fst (refreshTick net_up (None, [[]]) pool_AB world_AB)) = [''A'', ''B'']
   \<and> addrs (fst (refreshTick net_up (None, [[]]) pool_AB world_AB)) \<noteq> hd [[]]"
  by (simp add: refreshTick_def getCurrentConnection_def ConnectedNow_def pool_AB_def world_AB_def
      getState_def connConnected_def connClosed_def sample_opts_def)

lemma sel_AB: "getCurrentConnection world_AB pool_AB = (Some 0, pool_AB)"
  by (simp add: getCurrentConnection_def ConnectedNow_def pool_AB_def world_AB_def)

lemma fill_AB: "fillPool net_up [''B'', ''C''] pool_AB world_AB =
   (pool_AB\<lparr>pool := [''A'' \<mapsto> 0, ''B'' \<mapsto> 1, ''C'' \<mapsto> 2]\<rparr>,
    world_AB\<lparr>heap := (heap world_AB)
          (2 := \<lparr>conn_addr = ''C'', connectedNow = True, closedNow = False, closeErr = None\<rparr>),
        nextRef := 3,
        dial_log := [(''A'', Some 0), (''B'', Some 1), (''C'', Some 2)]\<rparr>)"
  by (simp add: indexOf_def Connect_def net_up_def setConnectionToPool_def pool_AB_def world_AB_def)


lemma live_AB: "getState pool_AB \<noteq> connClosed" "NodesGetFunctionName (opts pool_AB) \<noteq> []"
  by (simp_all add: pool_AB_def getState_def connConnected_def connClosed_def sample_opts_def)

lemma tick_AB_BC:
  "refreshTick net_up (None, [[''B'', ''C'']]) pool_AB world_AB =
     (pool_AB\<lparr>pool := [''B'' \<mapsto> 1, ''C'' \<mapsto> 2], addrs := [''B'', ''C'']\<rparr>,
      world_AB\<lparr>heap := (heap world_AB)
          (2 := \<lparr>conn_addr = ''C'', connectedNow = True, closedNow = False, closeErr = None\<rparr>,
           0 := \<lparr>conn_addr = ''A'', connectedNow = False, closedNow = True, closeErr = None\<rparr>),
        nextRef := 3,
        dial_log := [(''A'', Some 0), (''B'', Some 1), (''C'', Some 2)]\<rparr>)"
proof -
  have cl: "clearPool [''B'', ''C''] [''A'', ''B'']
     (pool_AB\<lparr>pool := [''A'' \<mapsto> 0, ''B'' \<mapsto> 1, ''C'' \<mapsto> 2]\<rparr>)
     (world_AB\<lparr>heap := (heap world_AB)
          (2 := \<lparr>conn_addr = ''C'', connectedNow = True, closedNow = False, closeErr = None\<rparr>),
        nextRef := 3,
        dial_log := [(''A'', Some 0), (''B'', Some 1), (''C'', Some 2)]\<rparr>)
    = (pool_AB\<lparr>pool := [''B'' \<mapsto> 1, ''C'' \<mapsto> 2]\<rparr>,
      world_AB\<lparr>heap := (heap world_AB)
          (2 := \<lparr>conn_addr = ''C'', connectedNow = True, closedNow = False, closeErr = None\<rparr>,
           0 := \<lparr>conn_addr = ''A'', connectedNow = False, closedNow = True, closeErr = None\<rparr>),
        nextRef := 3,
        dial_log := [(''A'', Some 0), (''B'', Some 1), (''C'', Some 2)]\<rparr>)"
  proof -
    have m: "[''A'' \<mapsto> 0::nat, ''B'' \<mapsto> 1, ''C'' \<mapsto> 2](''A'' := None) = [''B'' \<mapsto> 1, ''C'' \<mapsto> 2]"
      by (rule ext) simp
    have h: "heap world_AB 0 =
        \<lparr>conn_addr = ''A'', connectedNow = True, closedNow = False, closeErr = None\<rparr>"
      by (simp add: world_AB_def)
    show ?thesis
      by (simp add: indexOf_def getConnectionFromPool_def deleteConnectionFromPool_def
          conn_Close_def m h)
  qed
  have ad: "addrs pool_AB = [''A'', ''B'']"
    by (simp add: pool_AB_def)
  show ?thesis
    using live_AB
    by (simp add: refreshTick_def sel_AB fill_AB ad cl
        del: fillPool.simps clearPool.simps One_nat_def)
qed


lemma tick_AB_BC': "refreshTick net_up (None, [[''B'', ''C'']]) pool_AB world_AB = (pool_BC, world_BC)"
proof -
  have p: "pool_AB\<lparr>pool := [''B'' \<mapsto> 1, ''C'' \<mapsto> 2], addrs := [''B'', ''C'']\<rparr> = pool_BC"
    by (simp add: pool_AB_def pool_BC_def)
  have h: "(heap world_AB)
          (2 := \<lparr>conn_addr = ''C'', connectedNow = True, closedNow = False, closeErr = None\<rparr>,
           0 := \<lparr>conn_addr = ''A'', connectedNow = False, closedNow = True, closeErr = None\<rparr>)
         = heap world_BC"
    by (rule ext) (simp add: world_AB_def world_BC_def)
  have w: "world_AB\<lparr>heap := heap world_BC, nextRef := 3,
        dial_log := [(''A'', Some 0), (''B'', Some 1), (''C'', Some 2)]\<rparr> = world_BC"
    by (simp add: world_AB_def world_BC_def)
  show ?thesis
    unfolding tick_AB_BC p h w ..
qed


theorem refreshTick_reconciles_witness:
  "refreshTick net_up (None, [[''B'', ''C'']]) pool_AB world_AB = (pool_BC, world_BC)
   \<and> pool_wf world_AB pool_AB
   \<and> addrs pool_BC = [''B'', ''C'']
   \<and> pool pool_BC ''A'' = None \<and> ClosedNow world_BC 0
   \<and> pool pool_BC ''B'' = Some 1 \<and> heap world_BC 1 = heap world_AB 1
   \<and> new_dials world_AB world_BC = [(''C'', Some 2)]
   \<and> pool pool_BC ''C'' = Some 2 \<and> \<not> ClosedNow world_BC 2
   \<and> refreshTick net_up (None, [[]]) pool_AB world_AB = (pool_AB, world_AB)"
proof -
  have ad: "addrs pool_AB = [''A'', ''B'']"
    and pa: "pool pool_AB ''A'' = Some 0" and pb: "pool pool_AB ''B'' = Some 1"
    by (simp_all add: pool_AB_def)
  have hyp: "getState pool_AB \<noteq> connClosed \<and> NodesGetFunctionName (opts pool_AB) \<noteq> []
      \<and> pool_wf world_AB pool_AB \<and> [''B'', ''C''] \<noteq> []
      \<and> refreshTick net_up (None, [''B'', ''C''] # []) pool_AB world_AB = (pool_BC, world_BC)"
    using live_AB pool_wf_AB tick_AB_BC' by simp
  note t = refreshTick_reconciles [where p = pool_AB and w = world_AB and new = "[''B'', ''C'']"
      and others = "[]" and net = net_up and p' = pool_BC and w' = world_BC
      and answer = "(None, [[]])"]
  note c = t [THEN conjunct1, THEN mp, OF hyp]
  from c have c1: "addrs pool_BC = [''B'', ''C'']"
    by (elim conjE)
  from c have c5: "\<forall>a. a \<in> set (addrs pool_AB) \<and> a \<notin> set [''B'', ''C''] \<longrightarrow>
      pool pool_BC a = None \<and> (\<forall>c. pool pool_AB a = Some c \<longrightarrow> ClosedNow world_BC c)"
    by (elim conjE)
  from c have c6: "\<forall>a. a \<in> set (addrs pool_AB) \<and> a \<in> set [''B'', ''C''] \<longrightarrow>
      pool pool_BC a = pool pool_AB a
      \<and> (\<forall>c. pool pool_AB a = Some c \<longrightarrow> heap world_BC c = heap world_AB c)"
    by (elim conjE)
  from spec [OF c5, of "''A''"] pa have a: "pool pool_BC ''A'' = None \<and> ClosedNow world_BC 0"
    by (simp add: ad)
  from spec [OF c6, of "''B''"] pb
  have b: "pool pool_BC ''B'' = Some 1 \<and> heap world_BC 1 = heap world_AB 1"
    by (simp add: ad)
  have d: "new_dials world_AB world_BC = [(''C'', Some 2)]"
    by (simp add: new_dials_def world_AB_def world_BC_def)
  have e: "pool pool_BC ''C'' = Some 2 \<and> \<not> ClosedNow world_BC 2"
    by (simp add: pool_BC_def world_BC_def ClosedNow_def)
  from t [THEN conjunct2]
  have n: "refreshTick net_up (None, [[]]) pool_AB world_AB = (pool_AB, world_AB)"
    by (simp add: refreshTick_def sel_AB)
  from tick_AB_BC' pool_wf_AB c1 a b d e n show ?thesis
    by (intro conjI) (elim conjE, assumption)+
qed

subsection \<open>Construction when no node is reachable\<close>

lemma key_order_range: "dom m \<subseteq> set al \<Longrightarrow> range_order (key_order al m) m"
  by (auto simp: range_order_def key_order_def)

lemma warmUp_loop_pending:
  assumes "warmUp_loop net as alive errs p w = (alive', errs', p', w')"
    and "distinct as" and "set as \<inter> dom (pool p) = {}"
    and "\<forall>k a ce. net k a \<noteq> Accepted True ce"
  shows "alive' = alive
       \<and> {c. nextRef w \<le> c \<and> c < nextRef w'} \<subseteq> ran (pool p')
       \<and> ran (pool p) \<subseteq> ran (pool p')
       \<and> dom (pool p') \<subseteq> dom (pool p) \<union> set as
       \<and> nextRef w \<le> nextRef w'
       \<and> (\<exists>nd. dial_log w' = dial_log w @ nd \<and> map fst nd = as)"
  using assms
proof (induction as arbitrary: alive errs p w)
  case Nil
  then show ?case by auto
next
  case (Cons a rest)
  show ?case
  proof (cases rule: Connect_cases [of net w a])
    case (refused e)
    let ?w = "w\<lparr>dial_log := dial_log w @ [(a, None)]\<rparr>"
    from refused Cons.prems(1)
    have run: "warmUp_loop net rest alive (errs @ [Some e]) p ?w = (alive', errs', p', w')"
      by simp
    from Cons.prems have d: "distinct rest" "set rest \<inter> dom (pool p) = {}"
      by auto
    from Cons.IH [OF run d Cons.prems(4)] show ?thesis
      by auto
  next
    case (accepted live cerr)
    with Cons.prems(4) have nl: "\<not> live"
      by (cases live) auto
    let ?c = "nextRef w"
    let ?w = "w\<lparr>heap := (heap w)(nextRef w :=
                 \<lparr>conn_addr = a, connectedNow = live, closedNow = False, closeErr = cerr\<rparr>),
             nextRef := Suc (nextRef w),
             dial_log := dial_log w @ [(a, Some (nextRef w))]\<rparr>"
    let ?p1 = "if fallback p = None then p\<lparr>fallback := Some ?c\<rparr> else p"
    let ?p2 = "?p1\<lparr>pool := (pool ?p1)(a \<mapsto> ?c)\<rparr>"
    from accepted nl Cons.prems(1)
    have run: "warmUp_loop net rest alive (errs @ [None]) ?p2 ?w = (alive', errs', p', w')"
      by (simp add: ConnectedNow_def Let_def)
    have pl: "pool ?p2 = (pool p)(a \<mapsto> ?c)"
      by simp
    from Cons.prems have a: "a \<notin> dom (pool p)" and d: "distinct rest"
      and dj: "set rest \<inter> dom (pool ?p2) = {}"
      by auto
    from a have rn: "ran (pool ?p2) = insert ?c (ran (pool p))"
      unfolding pl by (simp add: ran_map_upd domIff)
    have dm: "dom (pool ?p2) = insert a (dom (pool p))"
      unfolding pl by simp
    from Cons.IH [OF run d dj Cons.prems(4)]
    have ih: "alive' = alive" "{c. nextRef ?w \<le> c \<and> c < nextRef w'} \<subseteq> ran (pool p')"
      "ran (pool ?p2) \<subseteq> ran (pool p')" "dom (pool p') \<subseteq> dom (pool ?p2) \<union> set rest"
      "nextRef ?w \<le> nextRef w'" "\<exists>nd. dial_log w' = dial_log ?w @ nd \<and> map fst nd = rest"
      by blast+
    from ih(3) [unfolded rn] have cin: "nextRef w \<in> ran (pool p')"
      and c3: "ran (pool p) \<subseteq> ran (pool p')"
      by (rule insert_subset [THEN iffD1, THEN conjunct1],
          rule insert_subset [THEN iffD1, THEN conjunct2])
    have c2: "{c. nextRef w \<le> c \<and> c < nextRef w'} \<subseteq> ran (pool p')"
    proof
      fix x
      assume "x \<in> {c. nextRef w \<le> c \<and> c < nextRef w'}"
      then have x: "nextRef w \<le> x" "x < nextRef w'"
        by simp_all
      show "x \<in> ran (pool p')"
      proof (cases "x = nextRef w")
        case True
        show ?thesis
          unfolding True by (rule cin)
      next
        case False
        with x have "x \<in> {c. nextRef ?w \<le> c \<and> c < nextRef w'}"
          by simp
        with ih(2) show ?thesis by blast
      qed
    qed
    from ih(4) [unfolded dm] have c4: "dom (pool p') \<subseteq> dom (pool p) \<union> set (a # rest)"
      by auto
    from ih(5) have c5: "nextRef w \<le> nextRef w'"
      by simp
    from ih(6) obtain nd where "dial_log w' = dial_log ?w @ nd" "map fst nd = rest"
      by blast
    then have "dial_log w' = dial_log w @ ((a, Some ?c) # nd) \<and> map fst ((a, Some ?c) # nd) = a # rest"
      by simp
    then have c6: "\<exists>nd. dial_log w' = dial_log w @ nd \<and> map fst nd = a # rest"
      by (rule exI)
    from ih(1) c2 c3 c4 c5 c6 show ?thesis
      by (intro conjI)
  qed
qed



text \<open>
  Where C6 holds. For a non-empty address list without repeated addresses and a
  positive check timeout, when no dial returns a connection that reports
  connected-now, construction fails with \<open>ErrNoConnection\<close> and returns no pool; every
  address was dialed once, in order, and every connection created in the course of it
  reports closed-now at the end. The order in which \<^verbatim>\<open>Close()\<close> visits the pool map may
  be any order of that map.
\<close>

theorem ConnectWithOpts_unreachable_distinct:
  assumes "al \<noteq> []" and "0 < sint (CheckTimeout om)" and "distinct al"
    and "\<forall>k a ce. net k a \<noteq> Accepted True ce"
    and "\<forall>m. dom m \<subseteq> set al \<longrightarrow> range_order (ord m) m"
  shows "\<exists>w'. ConnectWithOpts net ord al om w = Inr ((None, Some ErrNoConnection), w')
            \<and> map fst (new_dials w w') = al
            \<and> nextRef w \<le> nextRef w'
            \<and> (\<forall>c. nextRef w \<le> c \<and> c < nextRef w' \<longrightarrow> ClosedNow w' c)"
proof -
  let ?opts1 = "if sint (ClusterDiscoveryTime om) \<le> 0
                then om\<lparr>ClusterDiscoveryTime := 60 * Second\<rparr> else om"
  let ?p0 = "\<lparr>addrs = al, opts = ?opts1, state = connConnected,
              control_closed = False, pool = Map.empty, fallback = None\<rparr>"
  obtain alive errs p1 w1 where wu: "warmUp net ?p0 w = (alive, errs, p1, w1)"
    by (cases "warmUp net ?p0 w") auto
  then have loop: "warmUp_loop net al False [] ?p0 w = (alive, errs, p1, w1)"
    by (simp add: warmUp_def)
  have dj: "set al \<inter> dom (pool ?p0) = {}"
    by simp
  note r = warmUp_loop_pending [OF loop assms(3) dj assms(4)]
  from r have dead: "alive = False"
    by (elim conjE)
  from r have fresh: "{c. nextRef w \<le> c \<and> c < nextRef w1} \<subseteq> ran (pool p1)"
    by (elim conjE)
  from r have keys: "dom (pool p1) \<subseteq> dom (pool ?p0) \<union> set al"
    by (elim conjE)
  from r have grow: "nextRef w \<le> nextRef w1"
    by (elim conjE)
  from r have log: "\<exists>nd. dial_log w1 = dial_log w @ nd \<and> map fst nd = al"
    by (elim conjE)
  from keys have "dom (pool p1) \<subseteq> set al"
    by simp
  with assms(5) have "range_order (ord (pool p1)) (pool p1)"
    by simp
  then have ents: "set (List.map_filter (pool p1) (ord (pool p1))) = ran (pool p1)"
    by (rule range_order_entries)
  have "control_closed p1 = control_closed ?p0"
    using warmUp_loop_control_closed [of net al False "[]" ?p0 w] loop by simp
  then have op: "\<not> control_closed p1"
    by simp
  let ?w' = "close_set (ran (pool p1) \<union> set_option (fallback p1)) w1"
  from assms(1,2) wu dead Close_result [OF op, of "ord (pool p1)" w1]
  have res: "ConnectWithOpts net ord al om w = Inr ((None, Some ErrNoConnection), ?w')"
    by (simp add: ConnectWithOpts_def Let_def ents)
  from log have dials: "map fst (new_dials w ?w') = al"
    by (auto simp: new_dials_def close_set_def)
  from grow have grow': "nextRef w \<le> nextRef ?w'"
    by (simp add: close_set_def)
  have closed: "\<forall>c. nextRef w \<le> c \<and> c < nextRef ?w' \<longrightarrow> ClosedNow ?w' c"
  proof (intro allI impI)
    fix c
    assume "nextRef w \<le> c \<and> c < nextRef ?w'"
    then have "c \<in> {c. nextRef w \<le> c \<and> c < nextRef w1}"
      by (simp add: close_set_def)
    with fresh have "c \<in> ran (pool p1) \<union> set_option (fallback p1)"
      by blast
    then show "ClosedNow ?w' c"
      by (rule ClosedNow_close_set)
  qed
  show ?thesis
  proof (intro exI conjI)
    show "ConnectWithOpts net ord al om w = Inr ((None, Some ErrNoConnection), ?w')"
      by (rule res)
    show "map fst (new_dials w ?w') = al"
      by (rule dials)
    show "nextRef w \<le> nextRef ?w'"
      by (rule grow')
    show "\<forall>c. nextRef w \<le> c \<and> c < nextRef ?w' \<longrightarrow> ClosedNow ?w' c"
      by (rule closed)
  qed
qed

theorem ConnectWithOpts_unreachable_distinct_witness:
  "\<exists>w'. ConnectWithOpts net_pending (key_order [''A'', ''B'']) [''A'', ''B''] sample_opts empty_world
          = Inr ((None, Some ErrNoConnection), w')
        \<and> map fst (new_dials empty_world w') = [''A'', ''B'']
        \<and> nextRef empty_world \<le> nextRef w'"
proof -
  have a: "[''A'', ''B''] \<noteq> []" and b: "0 < sint (CheckTimeout sample_opts)"
    and c: "distinct [''A'', ''B'']"
    and d: "\<forall>k a ce. net_pending k a \<noteq> Accepted True ce"
    by (simp_all add: sample_opts_def Second_def net_pending_def)
  have e: "\<forall>m. dom m \<subseteq> set [''A'', ''B''] \<longrightarrow> range_order (key_order [''A'', ''B''] m) m"
    by (intro allI impI) (rule key_order_range)
  from ConnectWithOpts_unreachable_distinct [OF a b c d e, of empty_world]
  obtain w' where "ConnectWithOpts net_pending (key_order [''A'', ''B'']) [''A'', ''B''] sample_opts empty_world
          = Inr ((None, Some ErrNoConnection), w')
        \<and> map fst (new_dials empty_world w') = [''A'', ''B'']
        \<and> nextRef empty_world \<le> nextRef w'
        \<and> (\<forall>c. nextRef empty_world \<le> c \<and> c < nextRef w' \<longrightarrow> ClosedNow w' c)" ..
  then have "ConnectWithOpts net_pending (key_order [''A'', ''B'']) [''A'', ''B''] sample_opts empty_world
          = Inr ((None, Some ErrNoConnection), w')
        \<and> map fst (new_dials empty_world w') = [''A'', ''B'']
        \<and> nextRef empty_world \<le> nextRef w'"
    by (elim conjE, intro conjI)
  then show ?thesis ..
qed

subsection \<open>The sample states are states of the program\<close>

text \<open>
  \<open>pool_AB\<close> is what construction returns when both nodes are up, and \<open>pool_redialed\<close>
  is what the maintenance task makes of it after connection 0 was closed and redialed.
\<close>

lemma construction_reaches_pool_AB:
  "ConnectWithOpts net_up (key_order [''A'', ''B'']) [''A'', ''B''] sample_opts empty_world =
     Inr ((Some pool_AB, None), world_AB)"
  by (simp add: ConnectWithOpts_def warmUp_def Connect_def net_up_def sample_opts_def
      empty_world_def Second_def ConnectedNow_def pool_AB_def world_AB_def Let_def)

lemma construction_reaches_world_AB_flawed:
  "ConnectWithOpts net_close_fails_first (key_order [''A'', ''B'']) [''A'', ''B''] sample_opts
     empty_world = Inr ((Some pool_AB, None), world_AB_flawed)"
  by (simp add: ConnectWithOpts_def warmUp_def Connect_def net_close_fails_first_def sample_opts_def
      empty_world_def Second_def ConnectedNow_def pool_AB_def world_AB_flawed_def Let_def)

lemma redial_reaches_pool_redialed:
  "notifyEvent net_close_fails_first 0 pool_AB (close_set {0} world_AB_flawed) =
     (pool_redialed, world_redialed)"
proof -
  have m: "[''A'' \<mapsto> 0::nat, ''B'' \<mapsto> 1](''A'' \<mapsto> 2) = [''A'' \<mapsto> 2, ''B'' \<mapsto> 1]"
    by (rule ext) simp
  have h: "(heap (close_set {0} world_AB_flawed))
       (2 := \<lparr>conn_addr = ''A'', connectedNow = True, closedNow = False, closeErr = None\<rparr>)
      = heap world_redialed"
    by (rule ext) (simp add: close_set_def closed_conn_def world_AB_flawed_def world_redialed_def)
  have c: "ClosedNow (close_set {0} world_AB_flawed) 0"
    by (simp add: ClosedNow_close_set)
  have a: "Addr (close_set {0} world_AB_flawed) 0 = ''A''"
    by (simp add: Addr_def close_set_def closed_conn_def world_AB_flawed_def)
  have s: "getState pool_AB \<noteq> connClosed" "pool pool_AB ''A'' = Some 0"
    by (simp_all add: pool_AB_def getState_def connConnected_def connClosed_def)
  have l: "dial_log (close_set {0} world_AB_flawed) = [(''A'', Some 0), (''B'', Some 1)]"
    "nextRef (close_set {0} world_AB_flawed) = 2"
    by (simp_all add: close_set_def world_AB_flawed_def)
  have p: "pool_AB\<lparr>pool := [''A'' \<mapsto> 2, ''B'' \<mapsto> 1]\<rparr> = pool_redialed"
    by (simp add: pool_AB_def pool_redialed_def)
  have pm: "(pool pool_AB)(''A'' \<mapsto> 2) = [''A'' \<mapsto> 2, ''B'' \<mapsto> 1]"
    using m by (simp add: pool_AB_def)
  have w: "close_set {0} world_AB_flawed
      \<lparr>heap := heap world_redialed, nextRef := 3,
        dial_log := [(''A'', Some 0), (''B'', Some 1), (''A'', Some 2)]\<rparr> = world_redialed"
    by (simp add: close_set_def world_redialed_def world_AB_flawed_def)
  show ?thesis
    by (simp add: notifyEvent_def c a s l h pm p w getConnectionFromPool_def Connect_def
        net_close_fails_first_def setConnectionToPool_def del: One_nat_def)
qed

theorem ConnectionMulti_Do_routing_witness:
  "ConnectionMulti_Do \<lparr>req_code = 1, req_conn = Some (Some 0)\<rparr> pool_BC world_BC =
     Inr (ErrorFuture ErrNotBelong, pool_BC)
   \<and> ConnectionMulti_Do \<lparr>req_code = 1, req_conn = Some (Some 1)\<rparr> pool_BC world_BC =
     Inr (DoOn (Some 1) \<lparr>req_code = 1, req_conn = Some (Some 1)\<rparr>, pool_BC)
   \<and> ConnectionMulti_Do \<lparr>req_code = 1, req_conn = None\<rparr> pool_AB world_AB =
     Inr (DoOn (Some 0) \<lparr>req_code = 1, req_conn = None\<rparr>, pool_AB)"
  using ConnectionMulti_Do_routing [of "\<lparr>req_code = 1, req_conn = Some (Some 0)\<rparr>" pool_BC world_BC]
    ConnectionMulti_Do_routing [of "\<lparr>req_code = 1, req_conn = Some (Some 1)\<rparr>" pool_BC world_BC]
    ConnectionMulti_Do_routing [of "\<lparr>req_code = 1, req_conn = None\<rparr>" pool_AB world_AB]
  by (simp add: Addr_def world_BC_def pool_BC_def sel_AB)

subsection \<open>The pool map stays keyed by address\<close>

text \<open>
  The pool map is only ever written by \<open>setConnectionToPool(addr, conn)\<close> with a connection
  that was dialed for \<open>addr\<close>, and only ever shrunk by \<open>deleteConnectionFromPool\<close>.  So every
  entry of the map holds a connection that exists and whose address is the key of the entry:
  the predicate \<open>pool_wf\<close>.  The lemmas below follow this through every writer of the map.
\<close>


lemma pool_wf_cong: "pool p = pool q \<Longrightarrow> pool_wf w p = pool_wf w q"
  by (simp add: pool_wf_def)

lemma pool_wf_fallback: "pool_wf w (p\<lparr>fallback := fb\<rparr>) = pool_wf w p"
  by (simp add: pool_wf_def)

lemma pool_wf_addrs: "pool_wf w (p\<lparr>addrs := xs\<rparr>) = pool_wf w p"
  by (simp add: pool_wf_def)

lemma pool_wf_close_set: "pool_wf w p \<Longrightarrow> pool_wf (close_set S w) p"
  by (simp add: pool_wf_def close_set_def closed_conn_def Addr_def)

lemma pool_wf_delete: "pool_wf w p \<Longrightarrow> pool_wf w (deleteConnectionFromPool a p)"
  by (simp add: pool_wf_def deleteConnectionFromPool_def)

lemma pool_wf_restrict:
  "pool_wf w p \<Longrightarrow> pool_wf w (p\<lparr>pool := (\<lambda>a. if P a then None else pool p a)\<rparr>)"
  by (simp add: pool_wf_def)

lemma pool_wf_Connect:
  assumes "pool_wf w p" and "Connect net a w = (r, e, w1)"
  shows "pool_wf w1 p \<and> (\<forall>c. r = Some c \<longrightarrow> pool_wf w1 (p\<lparr>pool := (pool p)(a \<mapsto> c)\<rparr>))"
proof (cases rule: Connect_cases [of net w a])
  case (refused x)
  with assms show ?thesis
    by (auto simp: pool_wf_def Addr_def)
next
  case (accepted live cerr)
  from assms(1) have lt: "\<And>b c. pool p b = Some c \<Longrightarrow> c < nextRef w"
    and ad: "\<And>b c. pool p b = Some c \<Longrightarrow> conn_addr (heap w c) = b"
    by (auto simp: pool_wf_def Addr_def)
  from accepted assms(2) show ?thesis
    by (auto simp: pool_wf_def Addr_def less_Suc_eq dest: lt ad)
qed

lemma pool_wf_fillPool:
  "pool_wf w p \<Longrightarrow> fillPool net new p w = (p1, w1) \<Longrightarrow> pool_wf w1 p1"
proof (induction new arbitrary: p w)
  case Nil
  then show ?case by simp
next
  case (Cons v rest)
  show ?case
  proof (cases "indexOf v (addrs p) < 0")
    case False
    with Cons.prems have "fillPool net rest p w = (p1, w1)" by simp
    from Cons.IH [OF Cons.prems(1) this] show ?thesis .
  next
    case True
    obtain r e w0 where c: "Connect net v w = (r, e, w0)"
      by (cases "Connect net v w")
    note wf = pool_wf_Connect [OF Cons.prems(1) c]
    show ?thesis
    proof (cases r)
      case None
      with True c Cons.prems(2) have run: "fillPool net rest p w0 = (p1, w1)"
        by simp
      from wf have "pool_wf w0 p" by (elim conjE)
      from Cons.IH [OF this run] show ?thesis .
    next
      case (Some conn)
      with True c Cons.prems(2)
      have run: "fillPool net rest (setConnectionToPool v conn p) w0 = (p1, w1)"
        by simp
      from wf Some have "pool_wf w0 (setConnectionToPool v conn p)"
        by (simp add: setConnectionToPool_def)
      from Cons.IH [OF this run] show ?thesis .
    qed
  qed
qed

lemma pool_wf_refreshTick:
  assumes "pool_wf w p" and "refreshTick net answer p w = (p', w')"
  shows "pool_wf w' p'"
proof (cases "getState p = connClosed \<or> NodesGetFunctionName (opts p) = []")
  case True
  with assms show ?thesis
    by (simp add: refreshTick_def)
next
  case False
  obtain cur p0 where sel: "getCurrentConnection w p = (cur, p0)"
    by (cases "getCurrentConnection w p")
  from getCurrentConnection_frame [OF sel] have "p0 = p\<lparr>fallback := fallback p0\<rparr>" .
  then have "pool_wf w p0 = pool_wf w p"
    by (metis pool_wf_fallback)
  with assms(1) have wf0: "pool_wf w p0"
    by simp
  obtain e resp where an: "answer = (e, resp)"
    by (cases answer)
  show ?thesis
  proof (cases "e = None \<and> length resp > 0 \<and> length (hd resp) > 0")
    case no: False
    with False sel an assms(2) have "p' = p0 \<and> w' = w"
      by (cases e) (auto simp: refreshTick_def)
    with wf0 show ?thesis by simp
  next
    case yes: True
    obtain p1 w1 where fill: "fillPool net (hd resp) p0 w = (p1, w1)"
      by (cases "fillPool net (hd resp) p0 w")
    from pool_wf_fillPool [OF wf0 fill] have wf1: "pool_wf w1 p1" .
    let ?P = "\<lambda>a. a \<in> set (addrs p1) \<and> a \<notin> set (hd resp)"
    let ?S = "{c. \<exists>a. a \<in> set (addrs p1) \<and> a \<notin> set (hd resp) \<and> pool p1 a = Some c}"
    from False sel an yes fill assms(2)
    have res: "p' = p1\<lparr>pool := (\<lambda>a. if ?P a then None else pool p1 a), addrs := hd resp\<rparr>"
      "w' = close_set ?S w1"
      by (simp_all add: refreshTick_def clearPool_result Let_def)
    from wf1 have "pool_wf (close_set ?S w1) p1"
      by (rule pool_wf_close_set)
    then have "pool_wf (close_set ?S w1) (p1\<lparr>pool := (\<lambda>a. if ?P a then None else pool p1 a)\<rparr>)"
      by (rule pool_wf_restrict)
    then show ?thesis
      unfolding res by (simp add: pool_wf_def)
  qed
qed

lemma pool_wf_notifyEvent:
  assumes "pool_wf w p" and "notifyEvent net econn p w = (p', w')"
  shows "pool_wf w' p'"
proof -
  obtain r e w0 where c: "Connect net (Addr w econn) w = (r, e, w0)"
    by (cases "Connect net (Addr w econn) w")
  note wf = pool_wf_Connect [OF assms(1) c]
  from wf have k: "pool_wf w0 p" by (elim conjE)
  then have d: "pool_wf w0 (deleteConnectionFromPool (Addr w econn) p)"
    by (rule pool_wf_delete)
  from wf have s: "\<forall>c. r = Some c \<longrightarrow> pool_wf w0 (setConnectionToPool (Addr w econn) c p)"
    by (simp add: setConnectionToPool_def)
  from assms c d s show ?thesis
    by (cases r) (auto simp: notifyEvent_def Let_def split: if_splits option.splits)
qed

lemma pool_wf_warmUp_loop:
  "pool_wf w p \<Longrightarrow> warmUp_loop net as alive errs p w = (alive', errs', p', w') \<Longrightarrow> pool_wf w' p'"
proof (induction as arbitrary: alive errs p w)
  case Nil
  then show ?case by simp
next
  case (Cons a rest)
  obtain r e w0 where c: "Connect net a w = (r, e, w0)"
    by (cases "Connect net a w")
  note wf = pool_wf_Connect [OF Cons.prems(1) c]
  show ?case
  proof (cases "\<exists>conn. r = Some conn \<and> e = None")
    case True
    then obtain conn where r: "r = Some conn" "e = None"
      by blast
    let ?p1 = "if fallback p = None then p\<lparr>fallback := Some conn\<rparr> else p"
    let ?p2 = "?p1\<lparr>pool := (pool ?p1)(a \<mapsto> conn)\<rparr>"
    from r c Cons.prems(2)
    have run: "warmUp_loop net rest (if ConnectedNow w0 conn then True else alive)
        (errs @ [None]) ?p2 w0 = (alive', errs', p', w')"
      by (simp add: Let_def)
    from wf r have base: "pool_wf w0 (p\<lparr>pool := (pool p)(a \<mapsto> conn)\<rparr>)"
      by simp
    have eq: "pool ?p2 = pool (p\<lparr>pool := (pool p)(a \<mapsto> conn)\<rparr>)"
      by simp
    from base have "pool_wf w0 ?p2"
      by (rule pool_wf_cong [OF eq, THEN iffD2])
    from Cons.IH [OF this run] show ?thesis .
  next
    case False
    with c Cons.prems(2)
    have run: "warmUp_loop net rest alive (errs @ [e]) p w0 = (alive', errs', p', w')"
      by (cases r; cases e) auto
    from wf have "pool_wf w0 p" by (elim conjE)
    from Cons.IH [OF this run] show ?thesis .
  qed
qed

lemma pool_wf_ConnectWithOpts:
  assumes "ConnectWithOpts net ord al om w = Inr ((Some p, None), w')"
  shows "pool_wf w' p"
proof -
  let ?opts1 = "if sint (ClusterDiscoveryTime om) \<le> 0
                then om\<lparr>ClusterDiscoveryTime := 60 * Second\<rparr> else om"
  let ?p0 = "\<lparr>addrs = al, opts = ?opts1, state = connConnected,
              control_closed = False, pool = Map.empty, fallback = None\<rparr>"
  obtain alive errs p1 w1 where wu: "warmUp net ?p0 w = (alive, errs, p1, w1)"
    by (cases "warmUp net ?p0 w") auto
  then have loop: "warmUp_loop net al False [] ?p0 w = (alive, errs, p1, w1)"
    by (simp add: warmUp_def)
  have "pool_wf w ?p0"
    by (simp add: pool_wf_def)
  from pool_wf_warmUp_loop [OF this loop] have wf1: "pool_wf w1 p1" .
  from assms wu have "p = p1 \<and> w' = w1"
    by (auto simp: ConnectWithOpts_def Let_def split: if_splits sum.splits)
  with wf1 show ?thesis by simp
qed

text \<open>
  X5.  The pool map is keyed by the address of the connection it holds, at all times: this holds
  for the pool that \<open>ConnectWithOpts\<close> returns, it is kept by the discovery tick of the checker
  and by the handler of \<open>Disconnected\<close> and \<open>Closed\<close> events, and neither closing connections
  nor a call of \<open>getCurrentConnection\<close> breaks it.
\<close>

theorem pool_wf_invariant:
  "(ConnectWithOpts net ord al om w = Inr ((Some p, None), w') \<longrightarrow> pool_wf w' p)
   \<and> (pool_wf w p \<and> refreshTick net answer p w = (p', w') \<longrightarrow> pool_wf w' p')
   \<and> (pool_wf w p \<and> notifyEvent net econn p w = (p', w') \<longrightarrow> pool_wf w' p')
   \<and> (pool_wf w p \<longrightarrow> pool_wf (close_set S w) (snd (getCurrentConnection w p)))"
proof (intro conjI impI)
  assume "ConnectWithOpts net ord al om w = Inr ((Some p, None), w')"
  then show "pool_wf w' p"
    by (rule pool_wf_ConnectWithOpts)
next
  assume "pool_wf w p \<and> refreshTick net answer p w = (p', w')"
  then show "pool_wf w' p'"
    using pool_wf_refreshTick by blast
next
  assume "pool_wf w p \<and> notifyEvent net econn p w = (p', w')"
  then show "pool_wf w' p'"
    using pool_wf_notifyEvent by blast
next
  assume wf: "pool_wf w p"
  have "pool (snd (getCurrentConnection w p)) = pool p"
    by (simp add: getCurrentConnection_def split: prod.splits)
  from wf have "pool_wf w (snd (getCurrentConnection w p))"
    by (rule pool_wf_cong [OF \<open>pool (snd (getCurrentConnection w p)) = pool p\<close>, THEN iffD2])
  then show "pool_wf (close_set S w) (snd (getCurrentConnection w p))"
    by (rule pool_wf_close_set)
qed

theorem pool_wf_invariant_witness:
  "pool_wf world_AB_flawed pool_AB \<and> pool_wf world_redialed pool_redialed
   \<and> pool_wf world_BC pool_BC"
proof -
  note t1 = pool_wf_invariant [where net = net_close_fails_first
      and ord = "key_order [''A'', ''B'']" and al = "[''A'', ''B'']" and om = sample_opts
      and w = empty_world and p = pool_AB and w' = world_AB_flawed]
  from t1 [THEN conjunct1, THEN mp, OF construction_reaches_world_AB_flawed]
  have a: "pool_wf world_AB_flawed pool_AB" .
  then have a': "pool_wf (close_set {0} world_AB_flawed) pool_AB"
    by (rule pool_wf_close_set)
  note t2 = pool_wf_invariant [where net = net_close_fails_first and econn = 0 and p = pool_AB
      and w = "close_set {0} world_AB_flawed" and p' = pool_redialed and w' = world_redialed]
  from t2 [THEN conjunct2, THEN conjunct2, THEN conjunct1, THEN mp,
      OF conjI [OF a' redial_reaches_pool_redialed]]
  have b: "pool_wf world_redialed pool_redialed" .
  note t3 = pool_wf_invariant [where net = net_up and answer = "(None, [[''B'', ''C'']])"
      and p = pool_AB and w = world_AB and p' = pool_BC and w' = world_BC]
  from t3 [THEN conjunct2, THEN conjunct1, THEN mp, OF conjI [OF pool_wf_AB tick_AB_BC']]
  have c: "pool_wf world_BC pool_BC" .
  from a b c show ?thesis
    by (intro conjI)
qed

end
